theory Spec2Isabelle
  imports Complex_Main
begin

section \<open>Client notification store (src/vitereact/src/store/main.tsx)\<close>

text \<open>
  The \<open>Notification\<close> interface and the notification slice of the zustand store.
  The field \<open>type\<close> of the source is called \<open>ntype\<close> here.  Zustand's \<open>set\<close> merges the
  returned partial object into the state, so every action is a function from the
  slice to the slice that touches only the fields it returns.
\<close>

datatype NotificationType = Assignment | Comment | Status_update | Reminder

record Notification =
  notification_id :: int
  ntype :: NotificationType
  message :: string
  reference_id :: int
  created_at :: string
  is_read :: bool

record NotificationsState =
  notifications :: "Notification list"
  unread_count :: int
  loading :: bool
  error :: "string option"

definition initial_notifications_state :: NotificationsState where
  "initial_notifications_state =
     \<lparr>notifications = [], unread_count = 0, loading = False, error = None\<rparr>"

text \<open>\<open>notifications.filter((n) => !n.is_read).length\<close>\<close>

definition count_unread :: "Notification list \<Rightarrow> int" where
  "count_unread ns = int (length (filter (\<lambda>n. \<not> is_read n) ns))"

definition set_notifications :: "Notification list \<Rightarrow> NotificationsState \<Rightarrow> NotificationsState" where
  "set_notifications ns s = s\<lparr>notifications := ns, unread_count := count_unread ns\<rparr>"

text \<open>
  \<open>find\<close> returns the first element with the same id; an object is truthy, so the
  branch \<open>if (exists)\<close> is taken exactly when some element has that id.
\<close>

definition add_notification :: "Notification \<Rightarrow> NotificationsState \<Rightarrow> NotificationsState" where
  "add_notification notification s =
     (case find (\<lambda>n. notification_id n = notification_id notification) (notifications s) of
        Some exists \<Rightarrow> s
      | None \<Rightarrow>
          s\<lparr>notifications := notification # notifications s,
            unread_count := (if is_read notification then unread_count s
                             else unread_count s + 1)\<rparr>)"

definition mark_as_read :: "int \<Rightarrow> NotificationsState \<Rightarrow> NotificationsState" where
  "mark_as_read nid s =
     (let newNotifications =
            map (\<lambda>n. if notification_id n = nid then n\<lparr>is_read := True\<rparr> else n)
              (notifications s)
      in s\<lparr>notifications := newNotifications,
           unread_count := count_unread newNotifications\<rparr>)"

definition mark_all_as_read :: "NotificationsState \<Rightarrow> NotificationsState" where
  "mark_all_as_read s =
     s\<lparr>notifications := map (\<lambda>n. n\<lparr>is_read := True\<rparr>) (notifications s),
       unread_count := 0\<rparr>"

definition set_unread_count :: "int \<Rightarrow> NotificationsState \<Rightarrow> NotificationsState" where
  "set_unread_count count s = s\<lparr>unread_count := count\<rparr>"

text \<open>The property the badge relies on: the counter is the number of unread entries.\<close>

definition unread_consistent :: "NotificationsState \<Rightarrow> bool" where
  "unread_consistent s \<longleftrightarrow> unread_count s = count_unread (notifications s)"

text \<open>A notification without its read flag: what \<open>{...n, is_read: true}\<close> keeps.\<close>

definition content_of :: "Notification \<Rightarrow> int \<times> NotificationType \<times> string \<times> int \<times> string" where
  "content_of n = (notification_id n, ntype n, message n, reference_id n, created_at n)"

text \<open>Two notifications of the seed data of src/backend/db.sql, as the client holds them.\<close>

definition note_301 :: Notification where
  "note_301 = \<lparr>notification_id = 301, ntype = Assignment,
     message = ''You have been assigned to task \"Design new feature UI\".'',
     reference_id = 101, created_at = ''2024-06-05T09:01:00Z'', is_read = False\<rparr>"

definition note_303 :: Notification where
  "note_303 = \<lparr>notification_id = 303, ntype = Status_update,
     message = ''Task \"Fix login bug\" status changed to In Progress.'',
     reference_id = 102, created_at = ''2024-06-10T14:31:00Z'', is_read = True\<rparr>"

definition example_store :: NotificationsState where
  "example_store = set_notifications [note_301, note_303] initial_notifications_state"

text \<open>A store whose counter was overwritten by \<open>set_unread_count\<close>, and a third seed notification.\<close>

definition stale_store :: NotificationsState where
  "stale_store = set_unread_count 5 initial_notifications_state"

definition note_305 :: Notification where
  "note_305 = \<lparr>notification_id = 305, ntype = Reminder,
     message = ''Reminder: Task \"Design new feature UI\" is due soon.'',
     reference_id = 101, created_at = ''2024-06-29T17:00:00Z'', is_read = False\<rparr>"

section \<open>Query-string arrays of the task list view (src/unnamed/part_001)\<close>

text \<open>
  JavaScript's \<open>String.prototype.split(',')\<close>: the pieces between the separators, so
  the empty string gives one empty piece and \<open>n\<close> separators give \<open>n + 1\<close> pieces.
\<close>

fun split_on :: "char \<Rightarrow> string \<Rightarrow> string list" where
  "split_on c [] = [[]]"
| "split_on c (x # xs) =
     (if x = c then [] # split_on c xs
      else (case split_on c xs of
              [] \<Rightarrow> [[x]]
            | w # ws \<Rightarrow> (x # w) # ws))"

text \<open>\<open>Array.prototype.join(',')\<close>: the empty array gives the empty string.\<close>

fun join_with :: "char \<Rightarrow> string list \<Rightarrow> string" where
  "join_with c [] = []"
| "join_with c [s] = s"
| "join_with c (s # t # ts) = s @ c # join_with c (t # ts)"

text \<open>
  A \<open>char\<close> stands for a code unit below 256.  The white space and line terminators
  that \<open>String.prototype.trim\<close> strips in that range: tab, line feed, vertical tab, form
  feed, carriage return, space and the no-break space.
\<close>

definition js_whitespace :: "char \<Rightarrow> bool" where
  "js_whitespace c \<longleftrightarrow>
     c \<in> {CHR 0x09, CHR 0x0A, CHR 0x0B, CHR 0x0C, CHR 0x0D, CHR '' '', CHR 0xA0}"

definition trim :: "string \<Rightarrow> string" where
  "trim s = rev (dropWhile js_whitespace (rev (dropWhile js_whitespace s)))"

text \<open>
  \<open>param\<close> is \<open>string | null\<close>; \<open>!param\<close> holds for \<open>null\<close> and for the empty string.
  \<open>filter(Boolean)\<close> keeps the non-empty strings.
\<close>

definition parseQueryParamArray :: "string option \<Rightarrow> string list" where
  "parseQueryParamArray param =
     (case param of
        None \<Rightarrow> []
      | Some p \<Rightarrow> if p = [] then []
                  else filter (\<lambda>s. s \<noteq> []) (map trim (split_on CHR '','' p)))"

definition serializeQueryParamArray :: "string list \<Rightarrow> string" where
  "serializeQueryParamArray arr = join_with CHR '','' arr"

text \<open>A string that \<open>trim\<close> leaves alone: it neither starts nor ends with white space.\<close>

definition trimmed :: "string \<Rightarrow> bool" where
  "trimmed s \<longleftrightarrow> (s = [] \<or> (\<not> js_whitespace (hd s) \<and> \<not> js_whitespace (last s)))"

section \<open>Realtime connection registry (src/backend/server.js, lines 520 to 555)\<close>

text \<open>
  A user id as a decoded token can hold it: a number, a string, or nothing
  (\<open>undefined\<close>/\<open>null\<close>).  \<open>truthy\<close> is JavaScript's \<open>!!\<close>; keys of a \<open>Map\<close> are compared by
  value within a type, and a number never equals a string.
\<close>

datatype js_id = Undefined | Num int | Str string

fun truthy :: "js_id \<Rightarrow> bool" where
  "truthy Undefined = False"
| "truthy (Num n) = (n \<noteq> 0)"
| "truthy (Str s) = (s \<noteq> [])"

text \<open>
  A socket as the connection handler sees it: \<open>socket.user\<close> (the decoded token, of which
  only \<open>user_id\<close> is read; \<open>None\<close> when absent) and \<open>socket.id\<close>.
\<close>

record socket =
  socket_user :: "js_id option"
  socket_id :: string

type_synonym registry = "js_id \<rightharpoonup> string set"

text \<open>
  \<open>io.on('connection', ...)\<close>: a socket without a user or with a falsy user id is
  disconnected at once and not tracked (no \<open>disconnect\<close> handler is registered for it);
  the others are added to the set of their user, which is created when missing.
\<close>

definition accepted :: "socket \<Rightarrow> bool" where
  "accepted sock = (case socket_user sock of None \<Rightarrow> False | Some uid \<Rightarrow> truthy uid)"

definition on_connection :: "socket \<Rightarrow> registry \<Rightarrow> registry" where
  "on_connection sock userSocketsMap =
     (case socket_user sock of
        None \<Rightarrow> userSocketsMap
      | Some uid \<Rightarrow>
          if \<not> truthy uid then userSocketsMap
          else let userSockets = (case userSocketsMap uid of Some s \<Rightarrow> s | None \<Rightarrow> {})
               in userSocketsMap(uid \<mapsto> insert (socket_id sock) userSockets))"

text \<open>
  The \<open>disconnect\<close> handler of a tracked socket, with the \<open>user.user_id\<close> and
  \<open>socket.id\<close> it closes over: \<open>sockets.delete(socket.id)\<close>, then the entry is deleted
  when the set is empty and stored again otherwise.  Only accepted sockets have the
  handler, so the closing of a refused socket changes nothing.
\<close>

definition on_disconnect :: "js_id \<Rightarrow> string \<Rightarrow> registry \<Rightarrow> registry" where
  "on_disconnect uid sid userSocketsMap =
     (case userSocketsMap uid of
        None \<Rightarrow> userSocketsMap
      | Some sockets \<Rightarrow>
          let sockets' = sockets - {sid}
          in if sockets' = {} then userSocketsMap(uid := None)
             else userSocketsMap(uid \<mapsto> sockets'))"

datatype socket_event = Connect socket | Disconnect socket

fun registry_step :: "socket_event \<Rightarrow> registry \<Rightarrow> registry" where
  "registry_step (Connect sock) m = on_connection sock m"
| "registry_step (Disconnect sock) m =
     (case socket_user sock of
        None \<Rightarrow> m
      | Some uid \<Rightarrow> if accepted sock then on_disconnect uid (socket_id sock) m else m)"

fun registry_after :: "socket_event list \<Rightarrow> registry \<Rightarrow> registry" where
  "registry_after [] m = m"
| "registry_after (e # es) m = registry_after es (registry_step e m)"

text \<open>
  What the specification speaks of: the connections that are open after a sequence of
  events, as pairs of user id and socket id.  A socket the server refuses is never
  open.
\<close>

fun connections_step :: "socket_event \<Rightarrow> (js_id \<times> string) set \<Rightarrow> (js_id \<times> string) set" where
  "connections_step (Connect sock) C =
     (case socket_user sock of
        None \<Rightarrow> C
      | Some uid \<Rightarrow> if accepted sock then insert (uid, socket_id sock) C else C)"
| "connections_step (Disconnect sock) C =
     (case socket_user sock of
        None \<Rightarrow> C
      | Some uid \<Rightarrow> C - {(uid, socket_id sock)})"

fun connections_after :: "socket_event list \<Rightarrow> (js_id \<times> string) set \<Rightarrow> (js_id \<times> string) set" where
  "connections_after [] C = C"
| "connections_after (e # es) C = connections_after es (connections_step e C)"

definition sockets_of :: "js_id \<Rightarrow> (js_id \<times> string) set \<Rightarrow> string set" where
  "sockets_of uid C = snd ` {p \<in> C. fst p = uid}"

text \<open>The registry holds, for every user id, the open sockets of that user, and no empty set.\<close>

definition represents :: "registry \<Rightarrow> (js_id \<times> string) set \<Rightarrow> bool" where
  "represents m C \<longleftrightarrow>
     (\<forall>uid. m uid = (if sockets_of uid C = {} then None else Some (sockets_of uid C)))"

definition registry_sockets :: "registry \<Rightarrow> js_id \<Rightarrow> string set" where
  "registry_sockets m uid = (case m uid of None \<Rightarrow> {} | Some s \<Rightarrow> s)"

text \<open>Two browser tabs of one user and one of another.\<close>

definition tab_a :: socket where
  "tab_a = \<lparr>socket_user = Some (Num 2), socket_id = ''sock-a''\<rparr>"

definition tab_b :: socket where
  "tab_b = \<lparr>socket_user = Some (Num 2), socket_id = ''sock-b''\<rparr>"

definition tab_c :: socket where
  "tab_c = \<lparr>socket_user = Some (Num 3), socket_id = ''sock-c''\<rparr>"

section \<open>Registration (src/backend/server.js, POST /api/auth/register)\<close>

text \<open>
  A row of the table \<open>users\<close> of src/backend/db.sql.  The columns \<open>created_at\<close> and
  \<open>updated_at\<close> carry the prefix \<open>u_\<close>, as the field names of the other records of
  this theory are taken.
\<close>

record users_row =
  user_id :: int
  email :: string
  password_hash :: string
  name :: string
  role :: string
  u_created_at :: string
  u_updated_at :: string
  notification_settings :: string

text \<open>
  \<open>String.prototype.toLowerCase\<close> on code units below 256: \<open>A\<close> to \<open>Z\<close> (65 to 90) and
  the accented capitals 192 to 222, without the multiplication sign 215, move up by
  32; every other code unit stays.
\<close>

definition lower_char :: "char \<Rightarrow> char" where
  "lower_char c =
     (if (65 \<le> (of_char c :: nat) \<and> (of_char c :: nat) \<le> 90)
         \<or> (192 \<le> (of_char c :: nat) \<and> (of_char c :: nat) \<le> 222 \<and> (of_char c :: nat) \<noteq> 215)
      then char_of ((of_char c :: nat) + 32) else c)"

definition toLowerCase :: "string \<Rightarrow> string" where
  "toLowerCase s = map lower_char s"

text \<open>
  \<open>req.body\<close> after \<open>express.json()\<close>, for bodies whose three fields are strings or
  absent.  \<open>!x\<close> holds for an absent field and for the empty string.  The store is
  taken to answer its queries; when it cannot be reached the handler answers 500.
\<close>

record register_body =
  body_email :: "string option"
  body_password :: "string option"
  body_name :: "string option"

definition falsy :: "string option \<Rightarrow> bool" where
  "falsy x \<longleftrightarrow> x = None \<or> x = Some []"

text \<open>
  What the handler takes from outside: the results of \<open>generate_id()\<close>,
  \<open>hash_password(password)\<close> and \<open>now_iso()\<close>, the signing function behind
  \<open>generate_jwt\<close>, and whether the store accepts the values of a row for the column
  types of the table.  The schema declares \<open>user_id BIGINT\<close> and the ids of this theory
  are integers; \<open>generate_id()\<close> returns a UUID, which the handler only passes on, so
  its value is taken as it reaches the column and \<open>store_accepts\<close> decides whether the
  \<open>INSERT\<close> raises.
\<close>

record register_env =
  generated_id :: int
  hashed_password :: string
  now :: string
  sign :: "int \<times> string \<times> string \<times> string \<Rightarrow> string"
  store_accepts :: "users_row \<Rightarrow> bool"

datatype response_body =
    Error string
  | Registered string int string string string

datatype response = Response (http_status: nat) (http_body: response_body)

text \<open>
  \<open>INSERT INTO users\<close> under the constraints of the schema: \<open>user_id\<close> is the primary
  key, \<open>email\<close> is \<open>UNIQUE\<close>.  \<open>None\<close> is the error the driver raises.
\<close>

definition insert_user :: "(users_row \<Rightarrow> bool) \<Rightarrow> users_row \<Rightarrow> users_row list \<Rightarrow> users_row list option" where
  "insert_user accepts row users =
     (if \<not> accepts row then None
      else if \<exists>u\<in>set users. user_id u = user_id row then None
      else if \<exists>u\<in>set users. email u = email row then None
      else Some (users @ [row]))"

text \<open>
  The handler, as a function from the request and the table to the response and the
  table.  An exception inside the \<open>try\<close> reaches the outer \<open>catch\<close>, which answers 500.
\<close>

definition register :: "register_env \<Rightarrow> register_body \<Rightarrow> users_row list \<Rightarrow> response \<times> users_row list" where
  "register env req users =
     (if falsy (body_email req) \<or> falsy (body_password req) \<or> falsy (body_name req)
      then (Response 400 (Error ''email, password and name are required''), users)
      else
        let email = (case body_email req of Some e \<Rightarrow> e | None \<Rightarrow> []);
            name = (case body_name req of Some n \<Rightarrow> n | None \<Rightarrow> []);
            existing = filter (\<lambda>u. users_row.email u = toLowerCase email) users
        in if length existing > 0
           then (Response 400 (Error ''Email already registered''), users)
           else
             let row = \<lparr>user_id = generated_id env, email = toLowerCase email,
                        password_hash = hashed_password env, name = name,
                        role = ''regular'', u_created_at = now env, u_updated_at = now env,
                        notification_settings = ''{\"in_app\":true,\"email\":false}''\<rparr>
             in (case insert_user (store_accepts env) row users of
                   None \<Rightarrow> (Response 500 (Error ''Internal server error''), users)
                 | Some users' \<Rightarrow>
                     (Response 200
                        (Registered (sign env (generated_id env, email, ''regular'', name))
                           (generated_id env) email name ''regular''),
                      users')))"

text \<open>Every writer of the table stores the lower-cased address.\<close>

definition stored_lowercase :: "users_row list \<Rightarrow> bool" where
  "stored_lowercase users \<longleftrightarrow> (\<forall>u\<in>set users. email u = toLowerCase (email u))"

text \<open>Three users of the seed data of src/backend/db.sql, an environment and three requests.\<close>

definition seed_users :: "users_row list" where
  "seed_users =
     [\<lparr>user_id = 1, email = ''alice@example.com'', password_hash = ''hashed_pw_alice'',
       name = ''Alice Johnson'', role = ''manager'', u_created_at = ''2024-06-01T08:00:00Z'',
       u_updated_at = ''2024-06-01T08:00:00Z'',
       notification_settings = ''{\"in_app\": true, \"email\": false}''\<rparr>,
      \<lparr>user_id = 2, email = ''bob@example.com'', password_hash = ''hashed_pw_bob'',
       name = ''Bob Smith'', role = ''regular'', u_created_at = ''2024-06-02T09:30:00Z'',
       u_updated_at = ''2024-06-02T09:30:00Z'',
       notification_settings = ''{\"in_app\": true, \"email\": true}''\<rparr>,
      \<lparr>user_id = 3, email = ''carol@example.com'', password_hash = ''hashed_pw_carol'',
       name = ''Carol Williams'', role = ''regular'', u_created_at = ''2024-06-02T10:15:00Z'',
       u_updated_at = ''2024-06-02T10:15:00Z'',
       notification_settings = ''{\"in_app\": false, \"email\": true}''\<rparr>]"

definition example_env :: register_env where
  "example_env = \<lparr>generated_id = 6, hashed_password = ''$2b$12$hash'',
     now = ''2024-07-01T00:00:00.000Z'', sign = (\<lambda>payload. ''jwt''),
     store_accepts = (\<lambda>row. True)\<rparr>"

definition bob_again :: register_body where
  "bob_again = \<lparr>body_email = Some ''Bob@Example.com'', body_password = Some ''secret'',
     body_name = Some ''Bob''\<rparr>"

definition frank_first :: register_body where
  "frank_first = \<lparr>body_email = Some ''Frank@Example.com'', body_password = Some ''pw'',
     body_name = Some ''Frank''\<rparr>"

definition frank_second :: register_body where
  "frank_second = \<lparr>body_email = Some ''frank@example.COM'', body_password = Some ''pw2'',
     body_name = Some ''Frank again''\<rparr>"

section \<open>Entity store (src/backend/db.sql)\<close>

text \<open>
  The tables of the schema, a row as a record and a table as the list of its rows.
  \<open>BIGINT\<close> is \<open>int\<close>, \<open>TEXT\<close> is \<open>string\<close>, a column without \<open>NOT NULL\<close> is an option, the
  JSON array of tags is a list.  Column names that another record of this theory
  already uses carry the initials of their table.  The table \<open>users\<close> is
  \<open>users_row list\<close> above; \<open>user_invitations\<close>, which refers to \<open>users\<close> only, is left
  out.
\<close>

record tasks_row =
  task_id :: int
  creator_user_id :: int
  title :: string
  description :: "string option"
  due_date :: "string option"
  priority :: string
  status :: string
  t_created_at :: string
  t_updated_at :: string
  tags :: "string list"

record task_assignees_row =
  ta_task_id :: int
  ta_user_id :: int
  assigned_at :: string

record task_comments_row =
  comment_id :: int
  tc_task_id :: int
  author_user_id :: int
  body :: string
  tc_created_at :: string
  tc_updated_at :: "string option"
  parent_comment_id :: "int option"

record notifications_row =
  n_notification_id :: int
  n_user_id :: int
  n_type :: string
  n_reference_id :: "int option"
  n_message :: string
  n_is_read :: bool
  n_created_at :: string

record task_reminders_row =
  reminder_id :: int
  tr_task_id :: int
  remind_at :: string
  preset :: string
  tr_created_at :: string

record database =
  users_table :: "users_row list"
  tasks_table :: "tasks_row list"
  task_assignees_table :: "task_assignees_row list"
  task_comments_table :: "task_comments_row list"
  notifications_table :: "notifications_row list"
  task_reminders_table :: "task_reminders_row list"

text \<open>
  Deleting the comments that satisfy \<open>P\<close>.  \<open>parent_comment_id\<close> is declared
  \<open>REFERENCES task_comments(comment_id) ON DELETE SET NULL\<close>: a surviving row that
  referred to a deleted one keeps everything but that reference.
\<close>

definition delete_comments_where ::
    "(task_comments_row \<Rightarrow> bool) \<Rightarrow> task_comments_row list \<Rightarrow> task_comments_row list" where
  "delete_comments_where P cs =
     (let deleted = map comment_id (filter P cs)
      in map (\<lambda>c. case parent_comment_id c of
                     None \<Rightarrow> c
                   | Some p \<Rightarrow> if p \<in> set deleted then c\<lparr>parent_comment_id := None\<rparr> else c)
           (filter (\<lambda>c. \<not> P c) cs))"

text \<open>
  \<open>DELETE FROM tasks WHERE task_id = tid\<close>.  \<open>task_assignees\<close>, \<open>task_comments\<close> and
  \<open>task_reminders\<close> declare \<open>task_id ... REFERENCES tasks(task_id) ON DELETE CASCADE\<close>;
  \<open>notifications.reference_id\<close> is a plain \<open>BIGINT\<close> with no foreign key, so the
  statement does not reach that table.
\<close>

definition sql_delete_task :: "int \<Rightarrow> database \<Rightarrow> database" where
  "sql_delete_task tid db =
     db\<lparr>tasks_table := filter (\<lambda>t. task_id t \<noteq> tid) (tasks_table db),
        task_assignees_table := filter (\<lambda>a. ta_task_id a \<noteq> tid) (task_assignees_table db),
        task_comments_table :=
          delete_comments_where (\<lambda>c. tc_task_id c = tid) (task_comments_table db),
        task_reminders_table := filter (\<lambda>r. tr_task_id r \<noteq> tid) (task_reminders_table db)\<rparr>"

text \<open>\<open>DELETE FROM task_comments WHERE comment_id = cid\<close>.\<close>

definition sql_delete_comment :: "int \<Rightarrow> database \<Rightarrow> database" where
  "sql_delete_comment cid db =
     db\<lparr>task_comments_table :=
          delete_comments_where (\<lambda>c. comment_id c = cid) (task_comments_table db)\<rparr>"

text \<open>The error taxonomy of the engines.\<close>

datatype engine_error =
  ValidationError | NotFoundError | ForbiddenError | ConflictError | InternalError

text \<open>
  Modelled from the spec: the handler of \<open>DELETE /tasks/{id}\<close> is not among the source
  files.  Section 4.1: "Delete(taskId): removes all Assignments, Comments, and
  Reminders for the task ... deleting a nonexistent task fails with NotFoundError."
  The removal is the \<open>DELETE\<close> on \<open>tasks\<close> with the cascades of the schema.
\<close>

definition task_Delete :: "int \<Rightarrow> database \<Rightarrow> engine_error + database" where
  "task_Delete taskId db =
     (if \<exists>t\<in>set (tasks_table db). task_id t = taskId
      then Inr (sql_delete_task taskId db)
      else Inl NotFoundError)"

text \<open>
  \<open>require_manager_role\<close> of src/backend/server.js: the role is at or above \<open>manager\<close> in
  \<open>roleHierarchy = ['regular', 'manager', 'admin']\<close>.
\<close>

definition has_manager_role :: "string \<Rightarrow> bool" where
  "has_manager_role r \<longleftrightarrow> r = ''manager'' \<or> r = ''admin''"

text \<open>
  Modelled from the spec: the handler of \<open>DELETE /comments/{id}\<close> is not among the source
  files.  Section 4.2: "Delete(commentId, actorId): actor must be the original author
  or hold manager role, fails with ForbiddenError otherwise.  Any comment whose
  parent_comment_id pointed at this comment has that reference set to null"; the
  interface table gives 404 for a comment that does not exist.
\<close>

definition comment_Delete :: "int \<Rightarrow> int \<Rightarrow> database \<Rightarrow> engine_error + database" where
  "comment_Delete commentId actorId db =
     (case find (\<lambda>c. comment_id c = commentId) (task_comments_table db) of
        None \<Rightarrow> Inl NotFoundError
      | Some c \<Rightarrow>
          if author_user_id c = actorId
             \<or> (\<exists>u\<in>set (users_table db). user_id u = actorId \<and> has_manager_role (role u))
          then Inr (sql_delete_comment commentId db)
          else Inl ForbiddenError)"

text \<open>The seed data of src/backend/db.sql for task 101 and task 102.\<close>

definition seed_db :: database where
  "seed_db =
     \<lparr>users_table = seed_users,
      tasks_table =
        [\<lparr>task_id = 101, creator_user_id = 1, title = ''Design new feature UI'',
          description = Some ''Create wireframes and mockups for the new dashboard feature.'',
          due_date = Some ''2024-06-30T17:00:00Z'', priority = ''High'', status = ''To Do'',
          t_created_at = ''2024-06-05T08:00:00Z'', t_updated_at = ''2024-06-05T08:00:00Z'',
          tags = [''urgent'', ''frontend'', ''clientA'']\<rparr>,
         \<lparr>task_id = 102, creator_user_id = 2, title = ''Fix login bug'',
          description = Some ''Users cannot login when using special characters in password.'',
          due_date = Some ''2024-06-15T12:00:00Z'', priority = ''Medium'',
          status = ''In Progress'', t_created_at = ''2024-06-06T09:00:00Z'',
          t_updated_at = ''2024-06-10T14:30:00Z'', tags = [''bug'', ''backend'']\<rparr>],
      task_assignees_table =
        [\<lparr>ta_task_id = 101, ta_user_id = 2, assigned_at = ''2024-06-05T09:00:00Z''\<rparr>,
         \<lparr>ta_task_id = 101, ta_user_id = 3, assigned_at = ''2024-06-05T09:05:00Z''\<rparr>,
         \<lparr>ta_task_id = 102, ta_user_id = 2, assigned_at = ''2024-06-06T09:10:00Z''\<rparr>],
      task_comments_table =
        [\<lparr>comment_id = 201, tc_task_id = 101, author_user_id = 2,
          body = ''I started working on the wireframes, will share soon.'',
          tc_created_at = ''2024-06-05T10:00:00Z'', tc_updated_at = None,
          parent_comment_id = None\<rparr>,
         \<lparr>comment_id = 202, tc_task_id = 101, author_user_id = 3,
          body = ''Please consider accessibility guidelines in the designs.'',
          tc_created_at = ''2024-06-05T11:30:00Z'', tc_updated_at = None,
          parent_comment_id = Some 201\<rparr>,
         \<lparr>comment_id = 203, tc_task_id = 102, author_user_id = 2,
          body = ''Bug reproduced, looking into root cause.'',
          tc_created_at = ''2024-06-06T10:00:00Z'', tc_updated_at = Some ''2024-06-06T12:00:00Z'',
          parent_comment_id = None\<rparr>],
      notifications_table =
        [\<lparr>n_notification_id = 301, n_user_id = 2, n_type = ''task_assignment'',
          n_reference_id = Some 101,
          n_message = ''You have been assigned to task \"Design new feature UI\".'',
          n_is_read = False, n_created_at = ''2024-06-05T09:01:00Z''\<rparr>,
         \<lparr>n_notification_id = 303, n_user_id = 2, n_type = ''task_update'',
          n_reference_id = Some 102,
          n_message = ''Task \"Fix login bug\" status changed to In Progress.'',
          n_is_read = True, n_created_at = ''2024-06-10T14:31:00Z''\<rparr>],
      task_reminders_table =
        [\<lparr>reminder_id = 401, tr_task_id = 101, remind_at = ''2024-06-30T16:00:00Z'',
          preset = ''1_hour_before'', tr_created_at = ''2024-06-05T08:05:00Z''\<rparr>,
         \<lparr>reminder_id = 402, tr_task_id = 102, remind_at = ''2024-06-14T12:00:00Z'',
          preset = ''1_day_before'', tr_created_at = ''2024-06-06T09:10:00Z''\<rparr>]\<rparr>"

section \<open>Creating and updating tasks\<close>

text \<open>
  The \<open>VALUES\<close> of an \<open>INSERT INTO tasks\<close>.  The columns \<open>priority\<close>, \<open>status\<close> and \<open>tags\<close>
  have a \<open>DEFAULT\<close> in the schema and may be left out of the statement.
\<close>

record task_values =
  v_task_id :: int
  v_creator_user_id :: int
  v_title :: string
  v_description :: "string option"
  v_due_date :: "string option"
  v_priority :: "string option"
  v_status :: "string option"
  v_created_at :: string
  v_updated_at :: string
  v_tags :: "string list option"

text \<open>
  \<open>INSERT INTO tasks ... RETURNING *\<close> under the schema: \<open>task_id\<close> is the primary key,
  \<open>creator_user_id\<close> refers to \<open>users\<close>, and the defaults are \<open>priority 'Medium'\<close>,
  \<open>status 'To Do'\<close> and \<open>tags '[]'\<close>.  \<open>None\<close> is a violated constraint.
\<close>

definition sql_insert_task :: "task_values \<Rightarrow> database \<Rightarrow> (tasks_row \<times> database) option" where
  "sql_insert_task v db =
     (if \<exists>t\<in>set (tasks_table db). task_id t = v_task_id v then None
      else if \<not> (\<exists>u\<in>set (users_table db). user_id u = v_creator_user_id v) then None
      else
        let row = \<lparr>task_id = v_task_id v, creator_user_id = v_creator_user_id v,
                   title = v_title v, description = v_description v, due_date = v_due_date v,
                   priority = (case v_priority v of None \<Rightarrow> ''Medium'' | Some p \<Rightarrow> p),
                   status = (case v_status v of None \<Rightarrow> ''To Do'' | Some s \<Rightarrow> s),
                   t_created_at = v_created_at v, t_updated_at = v_updated_at v,
                   tags = (case v_tags v of None \<Rightarrow> [] | Some tgs \<Rightarrow> tgs)\<rparr>
        in Some (row, db\<lparr>tasks_table := tasks_table db @ [row]\<rparr>))"

text \<open>
  \<open>INSERT INTO task_assignees\<close> under the schema: \<open>PRIMARY KEY (task_id, user_id)\<close>, and
  both columns refer to existing rows.
\<close>

definition sql_insert_assignee :: "task_assignees_row \<Rightarrow> database \<Rightarrow> database option" where
  "sql_insert_assignee row db =
     (if \<exists>a\<in>set (task_assignees_table db).
            ta_task_id a = ta_task_id row \<and> ta_user_id a = ta_user_id row then None
      else if \<not> (\<exists>t\<in>set (tasks_table db). task_id t = ta_task_id row) then None
      else if \<not> (\<exists>u\<in>set (users_table db). user_id u = ta_user_id row) then None
      else Some (db\<lparr>task_assignees_table := task_assignees_table db @ [row]\<rparr>))"

fun insert_assignees :: "int \<Rightarrow> int list \<Rightarrow> string \<Rightarrow> database \<Rightarrow> database option" where
  "insert_assignees tid [] stamp db = Some db"
| "insert_assignees tid (u # us) stamp db =
     (case sql_insert_assignee \<lparr>ta_task_id = tid, ta_user_id = u, assigned_at = stamp\<rparr> db of
        None \<Rightarrow> None
      | Some db' \<Rightarrow> insert_assignees tid us stamp db')"

text \<open>
  The body of a creation request: \<open>{title, description?, due_date?, priority?, tags?,
  assignees?}\<close>, and a \<open>status\<close> that a client may send along.
\<close>

record create_fields =
  new_title :: "string option"
  new_description :: "string option"
  new_due_date :: "string option"
  new_priority :: "string option"
  new_status :: "string option"
  new_tags :: "string list option"
  new_assignees :: "int list option"

text \<open>\<open>TaskPriority = 'Low' | 'Medium' | 'High'\<close> of src/vitereact/src/store/main.tsx.\<close>

definition valid_priority :: "string \<Rightarrow> bool" where
  "valid_priority p \<longleftrightarrow> p = ''Low'' \<or> p = ''Medium'' \<or> p = ''High''"

text \<open>
  Modelled from the spec: the assignees of a creation request, each id once.  Section
  3: "uniqueness per (task, user) pair: a user cannot be assigned twice to the same
  task ... (no duplicate, no error)".
\<close>

definition create_assignees :: "create_fields \<Rightarrow> int list" where
  "create_assignees req = remdups (case new_assignees req of None \<Rightarrow> [] | Some a \<Rightarrow> a)"

text \<open>
  Modelled from the spec: the values of the row that Create inserts.  Section 4.1:
  "priority defaults to Medium if omitted or invalid; status always initializes to
  To Do regardless of input (status is not settable at creation); tags defaults to
  empty set, deduplicated".  The statement names no status and leaves the column to
  its default.
\<close>

definition create_values :: "int \<Rightarrow> create_fields \<Rightarrow> string \<Rightarrow> string \<Rightarrow> int \<Rightarrow> task_values" where
  "create_values creatorId req t stamp new_id =
     \<lparr>v_task_id = new_id, v_creator_user_id = creatorId, v_title = t,
      v_description = new_description req,
      v_due_date = new_due_date req,
      v_priority = Some (case new_priority req of
                          None \<Rightarrow> ''Medium''
                        | Some p \<Rightarrow> if valid_priority p then p else ''Medium''),
      v_status = None,
      v_created_at = stamp, v_updated_at = stamp,
      v_tags = Some (remdups (case new_tags req of None \<Rightarrow> [] | Some tgs \<Rightarrow> tgs))\<rparr>"

text \<open>
  Modelled from the spec: the handler of \<open>POST /tasks\<close> is not among the source files.
  Section 4.1: "Create(creatorId, fields): title required non-empty after trim; ...
  optional assignee id list is validated against existing users (unknown ids are an
  error) and produces Assignment rows with assigned_at = now.  Returns the fully
  hydrated task (with assignee display objects)."  The id of the new task and the
  time are parameters.  The notification fan-out, which writes notifications only, is
  not part of the model.
\<close>

definition task_Create ::
    "int \<Rightarrow> create_fields \<Rightarrow> string \<Rightarrow> int \<Rightarrow> database
     \<Rightarrow> engine_error + ((tasks_row \<times> users_row list) \<times> database)" where
  "task_Create creatorId req stamp new_id db =
     (case new_title req of
        None \<Rightarrow> Inl ValidationError
      | Some t \<Rightarrow>
          if trim t = [] then Inl ValidationError
          else if \<exists>a\<in>set (create_assignees req).
                    \<not> (\<exists>u\<in>set (users_table db). user_id u = a)
          then Inl ValidationError
          else
            (case sql_insert_task (create_values creatorId req t stamp new_id) db of
               None \<Rightarrow> Inl InternalError
             | Some (row, db1) \<Rightarrow>
                 (case insert_assignees new_id (create_assignees req) stamp db1 of
                    None \<Rightarrow> Inl InternalError
                  | Some db2 \<Rightarrow>
                      Inr ((row, filter (\<lambda>u. user_id u \<in> set (create_assignees req))
                                   (users_table db2)),
                           db2))))"

text \<open>
  The body of an update request: every field may be absent; \<open>description\<close> and
  \<open>due_date\<close> may be present and null.
\<close>

record update_fields =
  upd_title :: "string option"
  upd_description :: "string option option"
  upd_due_date :: "string option option"
  upd_priority :: "string option"
  upd_status :: "string option"
  upd_tags :: "string list option"
  upd_assignees :: "int list option"

text \<open>
  Modelled from the spec: section 4.1, "Changing assignees replaces the full assignee
  set: new members get fresh Assignment rows, removed members' rows are deleted,
  unchanged members are untouched (their assigned_at is preserved)".
\<close>

definition replace_assignees :: "int \<Rightarrow> int list \<Rightarrow> string \<Rightarrow> database \<Rightarrow> database option" where
  "replace_assignees tid members stamp db =
     (let wanted = remdups members;
          current = map ta_user_id (filter (\<lambda>a. ta_task_id a = tid) (task_assignees_table db));
          db1 = db\<lparr>task_assignees_table :=
                    filter (\<lambda>a. ta_task_id a \<noteq> tid \<or> ta_user_id a \<in> set wanted)
                      (task_assignees_table db)\<rparr>
      in insert_assignees tid (filter (\<lambda>u. u \<notin> set current) wanted) stamp db1)"

text \<open>
  Modelled from the spec: the row after an update.  Section 4.1: "Only fields present
  in the request are changed (partial update semantics); unspecified fields retain
  prior values ... updated_at is refreshed on every successful update regardless of
  which fields changed."
\<close>

definition updated_row :: "tasks_row \<Rightarrow> update_fields \<Rightarrow> string \<Rightarrow> tasks_row" where
  "updated_row old req stamp =
     old\<lparr>title := (case upd_title req of None \<Rightarrow> title old | Some t \<Rightarrow> t),
         description := (case upd_description req of None \<Rightarrow> description old | Some d \<Rightarrow> d),
         due_date := (case upd_due_date req of None \<Rightarrow> due_date old | Some d \<Rightarrow> d),
         priority := (case upd_priority req of None \<Rightarrow> priority old | Some p \<Rightarrow> p),
         status := (case upd_status req of None \<Rightarrow> status old | Some s \<Rightarrow> s),
         tags := (case upd_tags req of None \<Rightarrow> tags old | Some tgs \<Rightarrow> tgs),
         t_updated_at := stamp\<rparr>"

text \<open>
  Modelled from the spec: the row is written back, \<open>UPDATE tasks SET ... WHERE task_id =\<close>
  the id of the row.
\<close>

definition store_row :: "tasks_row \<Rightarrow> database \<Rightarrow> database" where
  "store_row row db =
     db\<lparr>tasks_table := map (\<lambda>t. if task_id t = task_id row then row else t) (tasks_table db)\<rparr>"

text \<open>
  Modelled from the spec: the handler of \<open>PATCH /tasks/{id}\<close> is not among the source
  files.  Section 4.1: "Update(taskId, actorId, partialFields): ... title, if present,
  must be non-empty after trim, fails with ValidationError otherwise.  Changing
  assignees replaces the full assignee set ... Fails with NotFoundError if taskId does
  not exist."  The actor is used by the notification fan-out only, which is not part
  of the model.
\<close>

definition task_Update ::
    "int \<Rightarrow> int \<Rightarrow> update_fields \<Rightarrow> string \<Rightarrow> database
     \<Rightarrow> engine_error + (tasks_row \<times> database)" where
  "task_Update taskId actorId req stamp db =
     (case find (\<lambda>t. task_id t = taskId) (tasks_table db) of
        None \<Rightarrow> Inl NotFoundError
      | Some old \<Rightarrow>
          if (case upd_title req of None \<Rightarrow> False | Some t \<Rightarrow> trim t = [])
          then Inl ValidationError
          else
            (case upd_assignees req of
               None \<Rightarrow> Inr (updated_row old req stamp, store_row (updated_row old req stamp) db)
             | Some members \<Rightarrow>
                 (case replace_assignees taskId members stamp
                         (store_row (updated_row old req stamp) db) of
                    None \<Rightarrow> Inl InternalError
                  | Some db2 \<Rightarrow> Inr (updated_row old req stamp, db2))))"

text \<open>The key of an assignment, and the number of assignments of a user to a task.\<close>

definition assignment_key :: "task_assignees_row \<Rightarrow> int \<times> int" where
  "assignment_key a = (ta_task_id a, ta_user_id a)"

definition assignment_rows :: "int \<Rightarrow> int \<Rightarrow> database \<Rightarrow> task_assignees_row list" where
  "assignment_rows tid uid db =
     filter (\<lambda>a. ta_task_id a = tid \<and> ta_user_id a = uid) (task_assignees_table db)"

text \<open>The title of an update request is absent or non-empty after trimming.\<close>

definition title_acceptable :: "update_fields \<Rightarrow> bool" where
  "title_acceptable req \<longleftrightarrow> (case upd_title req of None \<Rightarrow> True | Some t \<Rightarrow> trim t \<noteq> [])"

text \<open>A creation request that carries a status, and an update request that assigns users.\<close>

definition ship_release :: create_fields where
  "ship_release = \<lparr>new_title = Some ''Ship release'', new_description = None,
     new_due_date = None, new_priority = Some ''Urgent'', new_status = Some ''Done'',
     new_tags = Some [''release'', ''release''], new_assignees = Some [2]\<rparr>"

definition assign_to :: "int list \<Rightarrow> update_fields" where
  "assign_to members = \<lparr>upd_title = None, upd_description = None, upd_due_date = None,
     upd_priority = None, upd_status = None, upd_tags = None, upd_assignees = Some members\<rparr>"

section \<open>Pagination of the task list\<close>

text \<open>
  The \<open>Pagination\<close> interface of src/vitereact/src/store/main.tsx, which the client
  receives with every page of tasks.
\<close>

record Pagination =
  current_page :: nat
  total_pages :: nat
  page_size :: nat
  total_items :: nat

text \<open>
  Modelled from the spec: the handler of \<open>GET /tasks\<close> is not among the source files.
  Section 4.5: "Pagination: 1-indexed page number, configurable page size, returns
  total item count and total page count computed from the filtered set size."  The
  argument is the filtered and sorted list; the page count is computed in integer
  arithmetic.
\<close>

definition paginate :: "nat \<Rightarrow> nat \<Rightarrow> 'a list \<Rightarrow> 'a list \<times> Pagination" where
  "paginate page psize filtered =
     (take psize (drop ((page - 1) * psize) filtered),
      \<lparr>current_page = page,
       total_pages = (length filtered + psize - 1) div psize,
       page_size = psize,
       total_items = length filtered\<rparr>)"

text \<open>The ids of twenty-five tasks, 101 to 125.\<close>

definition twenty_five_tasks :: "int list" where
  "twenty_five_tasks = [101..125]"

section \<open>Properties of the notification store\<close>

lemma count_unread_simps:
  "count_unread [] = 0"
  "count_unread (n # ns) = (if is_read n then count_unread ns else count_unread ns + 1)"
  by (simp_all add: count_unread_def)

lemma count_unread_mark_all: "count_unread (map (\<lambda>n. n\<lparr>is_read := True\<rparr>) ns) = 0"
  by (induction ns) (simp_all add: count_unread_simps)

lemma mark_comp_idem:
  "(\<lambda>n. if notification_id n = nid then n\<lparr>is_read := True\<rparr> else n) \<circ>
   (\<lambda>n. if notification_id n = nid then n\<lparr>is_read := True\<rparr> else n)
   = (\<lambda>n. if notification_id n = nid then n\<lparr>is_read := True\<rparr> else n)"
  by (rule ext) simp

lemma mark_map_other:
  "filter (\<lambda>n. notification_id n \<noteq> nid)
     (map (\<lambda>n. if notification_id n = nid then n\<lparr>is_read := True\<rparr> else n) ns)
   = filter (\<lambda>n. notification_id n \<noteq> nid) ns"
  by (induction ns) simp_all

lemma ball_set_map: "(\<forall>m\<in>set (map f ns). P m) = (\<forall>n\<in>set ns. P (f n))"
  by simp

lemma notifications_mark_as_read:
  "notifications (mark_as_read nid s)
   = map (\<lambda>n. if notification_id n = nid then n\<lparr>is_read := True\<rparr> else n) (notifications s)"
  by (simp add: mark_as_read_def Let_def)

lemma mark_map_noop:
  "\<forall>n\<in>set ns. notification_id n = nid \<longrightarrow> is_read n \<Longrightarrow>
   map (\<lambda>n. if notification_id n = nid then n\<lparr>is_read := True\<rparr> else n) ns = ns"
  by (induction ns) simp_all

text \<open>
  C5.  \<open>mark_as_read\<close> is a total function (it has no error result), it leaves every
  notification with the given id read, it changes no other field of any notification
  and adds or removes none, it leaves the notifications with another id as they are,
  it is idempotent, and on a store whose notifications with that id are already read
  it leaves the list of notifications as it is.
\<close>

theorem mark_as_read_idempotent:
  "mark_as_read nid (mark_as_read nid s) = mark_as_read nid s
   \<and> (\<forall>n\<in>set (notifications (mark_as_read nid s)). notification_id n = nid \<longrightarrow> is_read n)
   \<and> map content_of (notifications (mark_as_read nid s)) = map content_of (notifications s)
   \<and> filter (\<lambda>n. notification_id n \<noteq> nid) (notifications (mark_as_read nid s))
       = filter (\<lambda>n. notification_id n \<noteq> nid) (notifications s)
   \<and> ((\<forall>n\<in>set (notifications s). notification_id n = nid \<longrightarrow> is_read n)
        \<longrightarrow> notifications (mark_as_read nid s) = notifications s)"
proof (intro conjI impI)
  show "mark_as_read nid (mark_as_read nid s) = mark_as_read nid s"
    by (simp add: mark_as_read_def Let_def mark_comp_idem)
  show "\<forall>n\<in>set (notifications (mark_as_read nid s)). notification_id n = nid \<longrightarrow> is_read n"
    unfolding notifications_mark_as_read ball_set_map by simp
  show "map content_of (notifications (mark_as_read nid s)) = map content_of (notifications s)"
    by (simp add: mark_as_read_def Let_def content_of_def)
  show "filter (\<lambda>n. notification_id n \<noteq> nid) (notifications (mark_as_read nid s))
          = filter (\<lambda>n. notification_id n \<noteq> nid) (notifications s)"
    by (simp add: mark_as_read_def Let_def mark_map_other)
next
  assume "\<forall>n\<in>set (notifications s). notification_id n = nid \<longrightarrow> is_read n"
  then show "notifications (mark_as_read nid s) = notifications s"
    by (simp add: mark_as_read_def Let_def mark_map_noop)
qed

theorem mark_as_read_idempotent_witness:
  "is_read note_303 \<and> note_303 \<in> set (notifications example_store)
   \<and> notifications (mark_as_read 303 example_store) = notifications example_store
   \<and> mark_as_read 303 (mark_as_read 303 example_store) = mark_as_read 303 example_store"
proof -
  have ns: "notifications example_store = [note_301, note_303]"
    by (simp add: example_store_def set_notifications_def)
  have h: "\<forall>n\<in>set (notifications example_store). notification_id n = 303 \<longrightarrow> is_read n"
    unfolding ns by (simp add: note_301_def note_303_def)
  have r: "is_read note_303"
    by (simp add: note_303_def)
  from mark_as_read_idempotent [of 303 example_store] h r ns show ?thesis
    by simp
qed

lemma add_notification_present:
  "notification_id n \<in> notification_id ` set (notifications s) \<Longrightarrow> add_notification n s = s"
proof -
  assume "notification_id n \<in> notification_id ` set (notifications s)"
  then have "find (\<lambda>m. notification_id m = notification_id n) (notifications s) \<noteq> None"
    by (auto simp: find_None_iff)
  then show ?thesis by (auto simp: add_notification_def)
qed

lemma add_notification_absent:
  "notification_id n \<notin> notification_id ` set (notifications s) \<Longrightarrow>
   add_notification n s = s\<lparr>notifications := n # notifications s,
            unread_count := (if is_read n then unread_count s else unread_count s + 1)\<rparr>"
proof -
  assume "notification_id n \<notin> notification_id ` set (notifications s)"
  then have "find (\<lambda>m. notification_id m = notification_id n) (notifications s) = None"
    by (simp add: find_None_iff image_iff) metis
  then show ?thesis by (simp add: add_notification_def)
qed

lemma add_notification_consistent:
  "unread_consistent s \<Longrightarrow> unread_consistent (add_notification n s)"
  by (cases "notification_id n \<in> notification_id ` set (notifications s)")
     (simp_all add: add_notification_present add_notification_absent unread_consistent_def
        count_unread_simps)

lemma add_notification_distinct:
  "distinct (map notification_id (notifications s)) \<Longrightarrow>
   distinct (map notification_id (notifications (add_notification n s)))"
  by (cases "notification_id n \<in> notification_id ` set (notifications s)")
     (simp_all add: add_notification_present add_notification_absent)

text \<open>
  C10 (as amended).  \<open>set_notifications\<close>, \<open>mark_as_read\<close> and \<open>mark_all_as_read\<close> recompute
  the counter, so after each of them \<open>unread_count\<close> is the number of unread
  notifications, whatever the store held before.  \<open>add_notification\<close> increments the
  counter it finds, so it keeps the equality when it held before the call.  A
  notification whose id is already in the store leaves the store as it is; one
  whose id is new is put in front; so ids that were distinct stay distinct.
\<close>

theorem unread_count_invariant:
  "unread_consistent (set_notifications ns s)
   \<and> unread_consistent (mark_as_read nid s)
   \<and> unread_consistent (mark_all_as_read s)
   \<and> (unread_consistent s \<longrightarrow> unread_consistent (add_notification n s))
   \<and> (notification_id n \<in> notification_id ` set (notifications s) \<longrightarrow> add_notification n s = s)
   \<and> (notification_id n \<notin> notification_id ` set (notifications s) \<longrightarrow>
        notifications (add_notification n s) = n # notifications s)
   \<and> (distinct (map notification_id (notifications s)) \<longrightarrow>
        distinct (map notification_id (notifications (add_notification n s))))"
proof (intro conjI impI)
  show "unread_consistent (set_notifications ns s)"
    by (simp add: unread_consistent_def set_notifications_def)
  show "unread_consistent (mark_as_read nid s)"
    by (simp add: unread_consistent_def mark_as_read_def Let_def)
  show "unread_consistent (mark_all_as_read s)"
    by (simp add: unread_consistent_def mark_all_as_read_def count_unread_mark_all)
next
  assume "unread_consistent s"
  then show "unread_consistent (add_notification n s)"
    by (rule add_notification_consistent)
next
  assume "notification_id n \<in> notification_id ` set (notifications s)"
  then show "add_notification n s = s"
    by (rule add_notification_present)
next
  assume "notification_id n \<notin> notification_id ` set (notifications s)"
  then show "notifications (add_notification n s) = n # notifications s"
    by (simp add: add_notification_absent)
next
  assume "distinct (map notification_id (notifications s))"
  then show "distinct (map notification_id (notifications (add_notification n s)))"
    by (rule add_notification_distinct)
qed

text \<open>
  Without the condition on the store the equality can fail after \<open>add_notification\<close>:
  \<open>set_unread_count\<close> can leave a counter of 5 on an empty list, and adding one unread
  notification then gives 6.
\<close>

theorem add_notification_stale_counterexample:
  "\<not> unread_consistent (add_notification note_301 stale_store)"
  by (simp add: unread_consistent_def add_notification_def stale_store_def set_unread_count_def
      initial_notifications_state_def note_301_def count_unread_def)

theorem unread_count_invariant_witness:
  "unread_consistent example_store
   \<and> unread_consistent (add_notification note_305 example_store)
   \<and> notifications (add_notification note_305 example_store) = [note_305, note_301, note_303]
   \<and> unread_count (add_notification note_305 example_store) = 2
   \<and> add_notification note_301 example_store = example_store
   \<and> distinct (map notification_id (notifications (add_notification note_305 example_store)))"
proof -
  have ns: "notifications example_store = [note_301, note_303]"
    by (simp add: example_store_def set_notifications_def)
  have c: "unread_consistent example_store"
    by (simp add: example_store_def set_notifications_def unread_consistent_def)
  have i1: "notification_id note_301 \<in> notification_id ` set (notifications example_store)"
    unfolding ns by simp
  have i5: "notification_id note_305 \<notin> notification_id ` set (notifications example_store)"
    unfolding ns by (simp add: note_301_def note_303_def note_305_def)
  have d: "distinct (map notification_id (notifications example_store))"
    unfolding ns by (simp add: note_301_def note_303_def)
  have u: "unread_count (add_notification note_305 example_store) = 2"
    by (simp add: add_notification_absent [OF i5])
       (simp add: example_store_def set_notifications_def count_unread_def note_301_def
          note_303_def note_305_def)
  from unread_count_invariant [of "[note_301, note_303]" example_store 301 note_305]
    unread_count_invariant [of "[note_301, note_303]" example_store 301 note_301]
    c i1 i5 d u ns
  show ?thesis by simp
qed

section \<open>Properties of the query-string encoding\<close>

lemma split_on_not_Nil: "split_on c s \<noteq> []"
  by (induction s) (simp_all split: list.split)

lemma split_on_no_sep: "c \<notin> set s \<Longrightarrow> split_on c s = [s]"
  by (induction s) auto

lemma split_on_append_sep:
  "c \<notin> set s \<Longrightarrow> split_on c (s @ c # rest) = s # split_on c rest"
  by (induction s) auto

lemma split_on_join_with:
  "xs \<noteq> [] \<Longrightarrow> \<forall>s\<in>set xs. c \<notin> set s \<Longrightarrow> split_on c (join_with c xs) = xs"
proof (induction c xs rule: join_with.induct)
  case (1 c)
  then show ?case by simp
next
  case (2 c s)
  then show ?case by (simp add: split_on_no_sep)
next
  case (3 c s t ts)
  then show ?case by (simp add: split_on_append_sep)
qed

lemma join_with_Nil_iff:
  "join_with c xs = [] \<longleftrightarrow> xs = [] \<or> xs = [[]]"
  by (induction c xs rule: join_with.induct) simp_all

lemma dropWhile_hd_id: "xs \<noteq> [] \<Longrightarrow> \<not> P (hd xs) \<Longrightarrow> dropWhile P xs = xs"
  by (cases xs) simp_all

lemma trim_trimmed: "trimmed s \<Longrightarrow> trim s = s"
proof (cases s)
  case Nil
  then show ?thesis by (simp add: trim_def)
next
  case (Cons a as)
  assume "trimmed s"
  with Cons have h: "\<not> js_whitespace (hd s)" and l: "\<not> js_whitespace (last s)"
    by (simp_all add: trimmed_def)
  from Cons h have 1: "dropWhile js_whitespace s = s"
    by simp
  from Cons have "rev s \<noteq> []" and "hd (rev s) = last s"
    by (simp_all add: hd_rev)
  with l have 2: "dropWhile js_whitespace (rev s) = rev s"
    by (simp add: dropWhile_hd_id)
  show ?thesis by (simp add: trim_def 1 2)
qed

lemma map_trim_trimmed: "\<forall>s\<in>set xs. trimmed s \<Longrightarrow> map trim xs = xs"
  by (induction xs) (simp_all add: trim_trimmed)

lemma filter_nonempty_id: "\<forall>s\<in>set xs. s \<noteq> [] \<Longrightarrow> filter (\<lambda>s. s \<noteq> []) xs = xs"
  by (induction xs) simp_all

text \<open>
  C9 (as amended).  The client's encoding of an array parameter round-trips on the
  lists whose strings are non-empty, contain no comma and neither start nor end with
  white space: parsing the comma-joined serialization gives the list back.
\<close>

theorem parse_serialize_roundtrip:
  assumes "\<forall>s\<in>set xs. s \<noteq> [] \<and> CHR '','' \<notin> set s \<and> trimmed s"
  shows "parseQueryParamArray (Some (serializeQueryParamArray xs)) = xs"
proof (cases "xs = []")
  case True
  then show ?thesis
    by (simp add: parseQueryParamArray_def serializeQueryParamArray_def)
next
  case False
  from assms have ne: "\<forall>s\<in>set xs. s \<noteq> []" and nc: "\<forall>s\<in>set xs. CHR '','' \<notin> set s"
    and tr: "\<forall>s\<in>set xs. trimmed s"
    by blast+
  from False ne have "xs \<noteq> [[]]" by auto
  with False have j: "join_with CHR '','' xs \<noteq> []"
    by (simp add: join_with_Nil_iff)
  have "split_on CHR '','' (join_with CHR '','' xs) = xs"
    using False nc by (rule split_on_join_with)
  with j show ?thesis
    by (simp add: parseQueryParamArray_def serializeQueryParamArray_def
        map_trim_trimmed [OF tr] filter_nonempty_id [OF ne])
qed

text \<open>
  It is not enough that the strings be non-empty after trimming and free of commas:
  the parser trims every piece, so a tag with a leading space does not come back.
\<close>

theorem parse_serialize_space_counterexample:
  "trim '' a'' \<noteq> [] \<and> CHR '','' \<notin> set '' a''
   \<and> parseQueryParamArray (Some (serializeQueryParamArray ['' a''])) \<noteq> ['' a'']"
  by (simp add: parseQueryParamArray_def serializeQueryParamArray_def trim_def js_whitespace_def)

theorem parse_serialize_roundtrip_witness:
  "list_all (\<lambda>s. s \<noteq> [] \<and> CHR '','' \<notin> set s \<and> trimmed s) [''To Do'', ''In Progress'']
   \<and> serializeQueryParamArray [''To Do'', ''In Progress''] = ''To Do,In Progress''
   \<and> parseQueryParamArray (Some ''To Do,In Progress'') = [''To Do'', ''In Progress'']"
proof -
  have h: "\<forall>s\<in>set [''To Do'', ''In Progress'']. s \<noteq> [] \<and> CHR '','' \<notin> set s \<and> trimmed s"
    by (simp add: trimmed_def js_whitespace_def)
  have s: "serializeQueryParamArray [''To Do'', ''In Progress''] = ''To Do,In Progress''"
    by (simp add: serializeQueryParamArray_def)
  from parse_serialize_roundtrip [OF h] h s show ?thesis
    by (simp add: list_all_iff)
qed

section \<open>Properties of the connection registry\<close>

lemma sockets_of_iff: "sid \<in> sockets_of uid C \<longleftrightarrow> (uid, sid) \<in> C"
  by (force simp: sockets_of_def)

lemma sockets_of_insert:
  "sockets_of u (insert (uid, sid) C) = (if u = uid then insert sid (sockets_of u C) else sockets_of u C)"
  by (auto simp: sockets_of_iff)

lemma sockets_of_remove:
  "sockets_of u (C - {(uid, sid)}) = (if u = uid then sockets_of u C - {sid} else sockets_of u C)"
  by (auto simp: sockets_of_iff)

lemma truthy_connections_step:
  "\<forall>(u, s)\<in>C. truthy u \<Longrightarrow> \<forall>(u, s)\<in>connections_step e C. truthy u"
  by (cases e) (auto simp: accepted_def split: option.splits if_splits)

lemma represents_on_connection:
  assumes "represents m C"
  shows "represents (registry_step (Connect sock) m) (connections_step (Connect sock) C)"
proof (cases "socket_user sock")
  case None
  with assms show ?thesis by (simp add: on_connection_def)
next
  case (Some uid)
  show ?thesis
  proof (cases "truthy uid")
    case False
    with Some assms show ?thesis by (simp add: on_connection_def accepted_def)
  next
    case True
    from assms have m: "\<And>u. m u = (if sockets_of u C = {} then None else Some (sockets_of u C))"
      by (simp add: represents_def)
    have "(case m uid of Some s \<Rightarrow> s | None \<Rightarrow> {}) = sockets_of uid C"
      by (simp add: m)
    with Some True show ?thesis
      by (simp add: on_connection_def accepted_def represents_def sockets_of_insert m)
  qed
qed

lemma represents_on_disconnect:
  assumes "represents m C" and "\<forall>(u, s)\<in>C. truthy u"
  shows "represents (registry_step (Disconnect sock) m) (connections_step (Disconnect sock) C)"
proof (cases "socket_user sock")
  case None
  with assms show ?thesis by simp
next
  case (Some uid)
  from assms have m: "\<And>u. m u = (if sockets_of u C = {} then None else Some (sockets_of u C))"
    by (simp add: represents_def)
  show ?thesis
  proof (cases "truthy uid")
    case False
    with assms(2) have "(uid, socket_id sock) \<notin> C"
      by auto
    then have "C - {(uid, socket_id sock)} = C"
      by simp
    with Some False assms(1) show ?thesis
      by (simp add: accepted_def)
  next
    case True
    with Some show ?thesis
      by (simp add: on_disconnect_def accepted_def represents_def sockets_of_remove m Let_def)
  qed
qed

lemma represents_step:
  "represents m C \<Longrightarrow> \<forall>(u, s)\<in>C. truthy u \<Longrightarrow>
   represents (registry_step e m) (connections_step e C)"
  by (cases e) (simp_all only: represents_on_connection represents_on_disconnect)

lemma represents_after:
  "represents m C \<Longrightarrow> \<forall>(u, s)\<in>C. truthy u \<Longrightarrow>
   represents (registry_after es m) (connections_after es C)"
proof (induction es arbitrary: m C)
  case Nil
  then show ?case by simp
next
  case (Cons e es)
  from Cons.prems have "represents (registry_step e m) (connections_step e C)"
    by (rule represents_step)
  moreover from Cons.prems(2) have "\<forall>(u, s)\<in>connections_step e C. truthy u"
    by (rule truthy_connections_step)
  ultimately show ?case
    by (simp add: Cons.IH)
qed

lemma represents_empty: "represents Map.empty {}"
  by (simp add: represents_def sockets_of_def)

lemma on_disconnect_frame:
  "(u, s) \<noteq> (uid, sid) \<Longrightarrow>
   s \<in> registry_sockets (on_disconnect uid sid m) u \<longleftrightarrow> s \<in> registry_sockets m u"
  by (auto simp: on_disconnect_def registry_sockets_def Let_def split: option.splits if_splits)

text \<open>
  C8.  After every sequence of connect and disconnect events, starting from the empty
  registry, the registry maps each user id to exactly the set of that user's open
  sockets and has an entry for a user id exactly when that set is not empty.  A
  disconnect removes only the socket that closed: every other socket, of the same or
  of another user, is in the registry afterwards exactly when it was before.
\<close>

theorem registry_tracks_connections:
  "registry_after es Map.empty uid =
     (if sockets_of uid (connections_after es {}) = {} then None
      else Some (sockets_of uid (connections_after es {})))
   \<and> (uid \<in> dom (registry_after es Map.empty) \<longleftrightarrow> sockets_of uid (connections_after es {}) \<noteq> {})
   \<and> ((u, s) \<noteq> (uid', sid') \<longrightarrow>
        (s \<in> registry_sockets (on_disconnect uid' sid' m) u \<longleftrightarrow> s \<in> registry_sockets m u))"
proof -
  have "represents (registry_after es Map.empty) (connections_after es {})"
    by (rule represents_after) (simp_all add: represents_empty)
  then have 1: "registry_after es Map.empty uid =
     (if sockets_of uid (connections_after es {}) = {} then None
      else Some (sockets_of uid (connections_after es {})))"
    by (simp add: represents_def)
  then have 2: "uid \<in> dom (registry_after es Map.empty) \<longleftrightarrow> sockets_of uid (connections_after es {}) \<noteq> {}"
    by (simp add: dom_def)
  from 1 2 on_disconnect_frame show ?thesis
    by blast
qed

theorem registry_tracks_connections_witness:
  "registry_after [Connect tab_a, Connect tab_b, Connect tab_c, Disconnect tab_a] Map.empty (Num 2)
     = Some {''sock-b''}
   \<and> registry_after [Connect tab_a, Connect tab_b, Connect tab_c, Disconnect tab_a] Map.empty (Num 3)
     = Some {''sock-c''}
   \<and> registry_after [Connect tab_a, Connect tab_b, Connect tab_c, Disconnect tab_a, Disconnect tab_b]
       Map.empty (Num 2) = None
   \<and> Num 2 \<notin> dom (registry_after
       [Connect tab_a, Connect tab_b, Connect tab_c, Disconnect tab_a, Disconnect tab_b] Map.empty)
   \<and> (Num 2, ''sock-b'') \<noteq> (Num 2, ''sock-a'')
   \<and> ''sock-b'' \<in> registry_sockets
         (on_disconnect (Num 2) ''sock-a'' (registry_after [Connect tab_a, Connect tab_b] Map.empty))
         (Num 2)"
proof -
  have d: "''sock-b'' \<in> registry_sockets (registry_after [Connect tab_a, Connect tab_b] Map.empty) (Num 2)"
    by (simp add: registry_sockets_def on_connection_def tab_a_def tab_b_def)
  have e: "(Num 2, ''sock-b'') \<noteq> (Num 2, ''sock-a'')"
    by simp
  have a: "sockets_of (Num 2)
      (connections_after [Connect tab_a, Connect tab_b, Connect tab_c, Disconnect tab_a] {})
      = {''sock-b''}"
    by (auto simp: sockets_of_iff tab_a_def tab_b_def tab_c_def accepted_def)
  have b: "sockets_of (Num 3)
      (connections_after [Connect tab_a, Connect tab_b, Connect tab_c, Disconnect tab_a] {})
      = {''sock-c''}"
    by (auto simp: sockets_of_iff tab_a_def tab_b_def tab_c_def accepted_def)
  have c: "sockets_of (Num 2)
      (connections_after [Connect tab_a, Connect tab_b, Connect tab_c, Disconnect tab_a, Disconnect tab_b] {})
      = {}"
    by (auto simp: sockets_of_iff tab_a_def tab_b_def tab_c_def accepted_def)
  from registry_tracks_connections
         [of "[Connect tab_a, Connect tab_b, Connect tab_c, Disconnect tab_a]" "Num 2"]
       registry_tracks_connections
         [of "[Connect tab_a, Connect tab_b, Connect tab_c, Disconnect tab_a]" "Num 3"]
       registry_tracks_connections
         [of "[Connect tab_a, Connect tab_b, Connect tab_c, Disconnect tab_a, Disconnect tab_b]" "Num 2"]
       registry_tracks_connections
         [where u = "Num 2" and s = "''sock-b''" and uid' = "Num 2" and sid' = "''sock-a''"
            and m = "registry_after [Connect tab_a, Connect tab_b] Map.empty"]
       a b c d e
  show ?thesis by simp
qed

section \<open>Properties of registration\<close>

lemma lower_char_idem: "lower_char (lower_char c) = lower_char c"
proof (cases "(65 \<le> (of_char c :: nat) \<and> (of_char c :: nat) \<le> 90)
         \<or> (192 \<le> (of_char c :: nat) \<and> (of_char c :: nat) \<le> 222 \<and> (of_char c :: nat) \<noteq> 215)")
  case True
  then have "(of_char (char_of ((of_char c :: nat) + 32)) :: nat) = of_char c + 32"
    by auto
  with True show ?thesis
    by (auto simp: lower_char_def)
next
  case False
  then show ?thesis by (auto simp: lower_char_def)
qed

lemma toLowerCase_idem: "toLowerCase (toLowerCase s) = toLowerCase s"
  by (simp add: toLowerCase_def lower_char_idem)

lemma register_existing:
  assumes "\<exists>u\<in>set users. email u = toLowerCase e" and "body_email req = Some e"
  shows "register env req users =
     (Response 400 (Error (if falsy (body_email req) \<or> falsy (body_password req) \<or> falsy (body_name req)
                           then ''email, password and name are required''
                           else ''Email already registered'')), users)"
proof -
  from assms(1) have "filter (\<lambda>u. email u = toLowerCase e) users \<noteq> []"
    by (simp add: filter_empty_conv)
  with assms(2) show ?thesis
    by (simp add: register_def Let_def)
qed

lemma register_stored_lowercase:
  "stored_lowercase users \<Longrightarrow> stored_lowercase (snd (register env req users))"
  by (auto simp: register_def Let_def insert_user_def stored_lowercase_def toLowerCase_idem
      split: option.splits if_splits)

lemma register_success_stores:
  assumes "register env req users = (resp, users')" and "http_status resp = 200"
    and "body_email req = Some e"
  shows "\<exists>u\<in>set users'. email u = toLowerCase e"
  using assms
  by (auto simp: register_def Let_def insert_user_def split: option.splits if_splits)

text \<open>
  C7.  Registering with an address that already belongs to a user is answered with
  status 400 and the table of users is left as it is.  An address belongs to a user
  when it equals the user's stored address up to the case of its letters; the table
  holds lower-cased addresses, as registration stores them.  In particular, after a
  successful registration a second one with the same address fails in this way,
  whatever the table held at the start.
\<close>

theorem register_duplicate_email:
  "(stored_lowercase users \<and> (\<exists>u\<in>set users. toLowerCase (email u) = toLowerCase e)
      \<and> body_email req = Some e
     \<longrightarrow> http_status (fst (register env req users)) = 400
         \<and> (\<exists>msg. http_body (fst (register env req users)) = Error msg)
         \<and> (\<not> falsy (body_email req) \<and> \<not> falsy (body_password req) \<and> \<not> falsy (body_name req)
              \<longrightarrow> http_body (fst (register env req users)) = Error ''Email already registered'')
         \<and> snd (register env req users) = users)
   \<and> (register first_env first_req start_users = (first_resp, users) \<and> http_status first_resp = 200
      \<and> body_email first_req = Some first_e \<and> body_email req = Some e \<and> toLowerCase e = toLowerCase first_e
     \<longrightarrow> http_status (fst (register env req users)) = 400
         \<and> snd (register env req users) = users)"
proof (intro conjI impI)
  assume a: "stored_lowercase users \<and> (\<exists>u\<in>set users. toLowerCase (email u) = toLowerCase e)
      \<and> body_email req = Some e"
  then have "\<exists>u\<in>set users. email u = toLowerCase e" and "body_email req = Some e"
    by (auto simp: stored_lowercase_def)
  then have r: "register env req users =
     (Response 400 (Error (if falsy (body_email req) \<or> falsy (body_password req) \<or> falsy (body_name req)
                           then ''email, password and name are required''
                           else ''Email already registered'')), users)"
    by (rule register_existing)
  show "http_status (fst (register env req users)) = 400"
    by (simp add: r)
  show "\<exists>msg. http_body (fst (register env req users)) = Error msg"
    by (simp add: r)
  show "snd (register env req users) = users"
    by (simp add: r)
  assume "\<not> falsy (body_email req) \<and> \<not> falsy (body_password req) \<and> \<not> falsy (body_name req)"
  then show "http_body (fst (register env req users)) = Error ''Email already registered''"
    by (simp add: r)
next
  assume b: "register first_env first_req start_users = (first_resp, users) \<and> http_status first_resp = 200
      \<and> body_email first_req = Some first_e \<and> body_email req = Some e \<and> toLowerCase e = toLowerCase first_e"
  then have "\<exists>u\<in>set users. email u = toLowerCase first_e"
    using register_success_stores by blast
  with b have "\<exists>u\<in>set users. email u = toLowerCase e" and "body_email req = Some e"
    by simp_all
  then have r: "register env req users =
     (Response 400 (Error (if falsy (body_email req) \<or> falsy (body_password req) \<or> falsy (body_name req)
                           then ''email, password and name are required''
                           else ''Email already registered'')), users)"
    by (rule register_existing)
  show "http_status (fst (register env req users)) = 400"
    by (simp add: r)
  show "snd (register env req users) = users"
    by (simp add: r)
qed

theorem register_duplicate_email_witness:
  "stored_lowercase seed_users
   \<and> register example_env bob_again seed_users
       = (Response 400 (Error ''Email already registered''), seed_users)
   \<and> http_status (fst (register example_env frank_first seed_users)) = 200
   \<and> http_status (fst (register example_env frank_second
                      (snd (register example_env frank_first seed_users)))) = 400
   \<and> snd (register example_env frank_second (snd (register example_env frank_first seed_users)))
       = snd (register example_env frank_first seed_users)"
proof -
  have h1: "stored_lowercase seed_users"
    by code_simp
  have h2: "\<exists>u\<in>set seed_users. toLowerCase (email u) = toLowerCase ''Bob@Example.com''"
    by code_simp
  have h3: "body_email bob_again = Some ''Bob@Example.com''"
    by (simp add: bob_again_def)
  have h4: "\<not> falsy (body_email bob_again) \<and> \<not> falsy (body_password bob_again)
      \<and> \<not> falsy (body_name bob_again)"
    by (simp add: bob_again_def falsy_def)
  from register_duplicate_email [where users = seed_users and e = "''Bob@Example.com''"
      and req = bob_again and env = example_env] h1 h2 h3 h4
  have b: "http_status (fst (register example_env bob_again seed_users)) = 400
      \<and> http_body (fst (register example_env bob_again seed_users)) = Error ''Email already registered''
      \<and> snd (register example_env bob_again seed_users) = seed_users"
    by blast
  have l: "toLowerCase ''Frank@Example.com'' = ''frank@example.com''"
    by code_simp
  have l2: "toLowerCase ''frank@example.COM'' = toLowerCase ''Frank@Example.com''"
    by code_simp
  have f: "http_status (fst (register example_env frank_first seed_users)) = 200"
    by (simp add: register_def Let_def frank_first_def falsy_def l seed_users_def
        insert_user_def example_env_def)
  have g: "body_email frank_first = Some ''Frank@Example.com''"
      "body_email frank_second = Some ''frank@example.COM''"
    by (simp_all add: frank_first_def frank_second_def)
  from register_duplicate_email [where users = "snd (register example_env frank_first seed_users)"
      and first_env = example_env and first_req = frank_first and start_users = seed_users
      and first_resp = "fst (register example_env frank_first seed_users)"
      and first_e = "''Frank@Example.com''" and e = "''frank@example.COM''" and req = frank_second
      and env = example_env] f g l2
  have s: "http_status (fst (register example_env frank_second
                      (snd (register example_env frank_first seed_users)))) = 400
     \<and> snd (register example_env frank_second (snd (register example_env frank_first seed_users)))
       = snd (register example_env frank_first seed_users)"
    by simp
  from b have "register example_env bob_again seed_users
       = (Response 400 (Error ''Email already registered''), seed_users)"
    by (cases "register example_env bob_again seed_users", cases "fst (register example_env bob_again seed_users)") auto
  with h1 f s show ?thesis
    by blast
qed

section \<open>Properties of deletion\<close>

lemma delete_comments_where_none:
  "\<forall>c\<in>set (delete_comments_where (\<lambda>c. tc_task_id c = tid) cs). tc_task_id c \<noteq> tid"
  unfolding delete_comments_where_def Let_def ball_set_map
  by (simp split: option.split)

lemma delete_comments_where_ids:
  "map comment_id (delete_comments_where P cs) = map comment_id (filter (\<lambda>c. \<not> P c) cs)"
proof -
  have "comment_id (case parent_comment_id c of None \<Rightarrow> c
          | Some p \<Rightarrow> if p \<in> D then c\<lparr>parent_comment_id := None\<rparr> else c) = comment_id c" for c D
    by (simp split: option.split)
  then have "(\<lambda>c. comment_id (case parent_comment_id c of None \<Rightarrow> c
          | Some p \<Rightarrow> if p \<in> D then c\<lparr>parent_comment_id := None\<rparr> else c)) = comment_id" for D
    by (intro ext)
  then show ?thesis
    unfolding delete_comments_where_def Let_def map_map comp_def
    by (rule arg_cong)
qed

lemma deleted_ids_single:
  "\<exists>c\<in>set cs. comment_id c = cid \<Longrightarrow>
   set (map comment_id (filter (\<lambda>c. comment_id c = cid) cs)) = {cid}"
  by auto

lemma delete_comments_where_id:
  assumes "\<exists>c\<in>set cs. comment_id c = cid"
  shows "delete_comments_where (\<lambda>c. comment_id c = cid) cs =
     map (\<lambda>c. if parent_comment_id c = Some cid then c\<lparr>parent_comment_id := None\<rparr> else c)
       (filter (\<lambda>c. comment_id c \<noteq> cid) cs)"
proof -
  have "(\<lambda>c. case parent_comment_id c of None \<Rightarrow> c
          | Some p \<Rightarrow> if p \<in> {cid} then c\<lparr>parent_comment_id := None\<rparr> else c)
        = (\<lambda>c. if parent_comment_id c = Some cid then c\<lparr>parent_comment_id := None\<rparr> else c)"
    by (rule ext) (simp split: option.split)
  then have "map (\<lambda>c. case parent_comment_id c of None \<Rightarrow> c
          | Some p \<Rightarrow> if p \<in> {cid} then c\<lparr>parent_comment_id := None\<rparr> else c) xs
        = map (\<lambda>c. if parent_comment_id c = Some cid then c\<lparr>parent_comment_id := None\<rparr> else c) xs"
    for xs
    by (rule arg_cong)
  then show ?thesis
    unfolding delete_comments_where_def Let_def deleted_ids_single [OF assms] .
qed

lemma find_unique_key:
  "x \<in> set xs \<Longrightarrow> distinct (map f xs) \<Longrightarrow> find (\<lambda>y. f y = f x) xs = Some x"
proof (induction xs)
  case Nil
  then show ?case by simp
next
  case (Cons a xs)
  show ?case
  proof (cases "f a = f x")
    case True
    with Cons.prems have "x = a"
      by (auto simp: image_iff)
    with True show ?thesis by simp
  next
    case False
    with Cons show ?thesis by auto
  qed
qed

lemma comment_Delete_Inr:
  assumes "comment_Delete cid actor db = Inr db'"
  shows "(\<exists>c\<in>set (task_comments_table db). comment_id c = cid) \<and> db' = sql_delete_comment cid db"
proof -
  from assms obtain c where "find (\<lambda>c. comment_id c = cid) (task_comments_table db) = Some c"
    and d: "db' = sql_delete_comment cid db"
    by (auto simp: comment_Delete_def split: option.splits if_splits)
  then have "c \<in> set (task_comments_table db) \<and> comment_id c = cid"
    by (auto simp: find_Some_iff)
  with d show ?thesis by blast
qed

text \<open>
  C3.  A successful deletion of a task leaves no assignment, comment or reminder of
  that task (and no row of the task itself); the assignments, comments and reminders
  of the other tasks stay.  It leaves the table of notifications as it was: the
  notifications that refer to the deleted task are the same rows as before.  The
  deletion succeeds whenever the task exists.
\<close>

theorem task_Delete_cascade:
  "(task_Delete tid db = Inr db' \<longrightarrow>
      (\<forall>a\<in>set (task_assignees_table db'). ta_task_id a \<noteq> tid)
      \<and> (\<forall>c\<in>set (task_comments_table db'). tc_task_id c \<noteq> tid)
      \<and> (\<forall>r\<in>set (task_reminders_table db'). tr_task_id r \<noteq> tid)
      \<and> (\<forall>t\<in>set (tasks_table db'). task_id t \<noteq> tid)
      \<and> task_assignees_table db' = filter (\<lambda>a. ta_task_id a \<noteq> tid) (task_assignees_table db)
      \<and> task_reminders_table db' = filter (\<lambda>r. tr_task_id r \<noteq> tid) (task_reminders_table db)
      \<and> map comment_id (task_comments_table db')
          = map comment_id (filter (\<lambda>c. tc_task_id c \<noteq> tid) (task_comments_table db))
      \<and> notifications_table db' = notifications_table db
      \<and> filter (\<lambda>n. n_reference_id n = Some tid) (notifications_table db')
          = filter (\<lambda>n. n_reference_id n = Some tid) (notifications_table db))
   \<and> ((\<exists>t\<in>set (tasks_table db). task_id t = tid) \<longrightarrow> (\<exists>d. task_Delete tid db = Inr d))"
proof (intro conjI impI)
  assume "task_Delete tid db = Inr db'"
  then have d: "db' = sql_delete_task tid db"
    by (simp add: task_Delete_def split: if_splits)
  show "\<forall>a\<in>set (task_assignees_table db'). ta_task_id a \<noteq> tid"
    by (simp add: d sql_delete_task_def)
  show "\<forall>c\<in>set (task_comments_table db'). tc_task_id c \<noteq> tid"
    using delete_comments_where_none [of tid "task_comments_table db"]
    by (simp add: d sql_delete_task_def)
  show "\<forall>r\<in>set (task_reminders_table db'). tr_task_id r \<noteq> tid"
    by (simp add: d sql_delete_task_def)
  show "\<forall>t\<in>set (tasks_table db'). task_id t \<noteq> tid"
    by (simp add: d sql_delete_task_def)
  show "task_assignees_table db' = filter (\<lambda>a. ta_task_id a \<noteq> tid) (task_assignees_table db)"
    by (simp add: d sql_delete_task_def)
  show "task_reminders_table db' = filter (\<lambda>r. tr_task_id r \<noteq> tid) (task_reminders_table db)"
    by (simp add: d sql_delete_task_def)
  show "map comment_id (task_comments_table db')
          = map comment_id (filter (\<lambda>c. tc_task_id c \<noteq> tid) (task_comments_table db))"
    by (simp add: d sql_delete_task_def delete_comments_where_ids)
  show n: "notifications_table db' = notifications_table db"
    by (simp add: d sql_delete_task_def)
  show "filter (\<lambda>n. n_reference_id n = Some tid) (notifications_table db')
          = filter (\<lambda>n. n_reference_id n = Some tid) (notifications_table db)"
    by (simp add: n)
next
  assume "\<exists>t\<in>set (tasks_table db). task_id t = tid"
  then show "\<exists>d. task_Delete tid db = Inr d"
    by (simp add: task_Delete_def)
qed

theorem task_Delete_cascade_witness:
  "(\<exists>t\<in>set (tasks_table seed_db). task_id t = 101)
   \<and> task_Delete 101 seed_db = Inr (sql_delete_task 101 seed_db)
   \<and> map ta_task_id (task_assignees_table seed_db) = [101, 101, 102]
   \<and> map ta_task_id (task_assignees_table (sql_delete_task 101 seed_db)) = [102]
   \<and> map comment_id (task_comments_table (sql_delete_task 101 seed_db)) = [203]
   \<and> map tr_task_id (task_reminders_table (sql_delete_task 101 seed_db)) = [102]
   \<and> map n_reference_id (notifications_table (sql_delete_task 101 seed_db)) = [Some 101, Some 102]
   \<and> notifications_table (sql_delete_task 101 seed_db) = notifications_table seed_db"
proof -
  have e: "\<exists>t\<in>set (tasks_table seed_db). task_id t = 101"
    by (simp add: seed_db_def)
  then have d: "task_Delete 101 seed_db = Inr (sql_delete_task 101 seed_db)"
    by (simp add: task_Delete_def)
  have c: "map comment_id (task_comments_table (sql_delete_task 101 seed_db)) = [203]"
    by (simp add: sql_delete_task_def seed_db_def delete_comments_where_def)
  have a: "map ta_task_id (task_assignees_table seed_db) = [101, 101, 102]"
    "map ta_task_id (task_assignees_table (sql_delete_task 101 seed_db)) = [102]"
    "map tr_task_id (task_reminders_table (sql_delete_task 101 seed_db)) = [102]"
    by (simp_all add: sql_delete_task_def seed_db_def)
  have n: "map n_reference_id (notifications_table (sql_delete_task 101 seed_db)) = [Some 101, Some 102]"
    by (simp add: sql_delete_task_def seed_db_def)
  from task_Delete_cascade [of 101 seed_db "sql_delete_task 101 seed_db"] d
  have "notifications_table (sql_delete_task 101 seed_db) = notifications_table seed_db"
    by blast
  with e d c a n show ?thesis
    by simp
qed

text \<open>
  C4.  A successful deletion of a comment removes that comment and nothing else: the
  table afterwards is the table before without the deleted row, in the same order,
  where every row that referred to the deleted comment has \<open>parent_comment_id\<close> null and
  is otherwise the row it was, and every other row is unchanged.  The deletion
  succeeds when the comment exists and the actor is its author.
\<close>

theorem comment_Delete_orphans_replies:
  "(comment_Delete cid actor db = Inr db' \<longrightarrow>
      task_comments_table db' =
        map (\<lambda>c. if parent_comment_id c = Some cid then c\<lparr>parent_comment_id := None\<rparr> else c)
          (filter (\<lambda>c. comment_id c \<noteq> cid) (task_comments_table db))
      \<and> (\<forall>c\<in>set (task_comments_table db). comment_id c \<noteq> cid \<and> parent_comment_id c = Some cid
            \<longrightarrow> c\<lparr>parent_comment_id := None\<rparr> \<in> set (task_comments_table db'))
      \<and> (\<forall>c\<in>set (task_comments_table db). comment_id c \<noteq> cid \<and> parent_comment_id c \<noteq> Some cid
            \<longrightarrow> c \<in> set (task_comments_table db'))
      \<and> (\<forall>c\<in>set (task_comments_table db'). parent_comment_id c \<noteq> Some cid))
   \<and> ((\<exists>c\<in>set (task_comments_table db). comment_id c = cid \<and> author_user_id c = actor)
        \<and> distinct (map comment_id (task_comments_table db))
       \<longrightarrow> (\<exists>d. comment_Delete cid actor db = Inr d))"
proof (intro conjI impI)
  assume a: "comment_Delete cid actor db = Inr db'"
  then have ex: "\<exists>c\<in>set (task_comments_table db). comment_id c = cid"
    and d: "db' = sql_delete_comment cid db"
    using comment_Delete_Inr by blast+
  show eq: "task_comments_table db' =
        map (\<lambda>c. if parent_comment_id c = Some cid then c\<lparr>parent_comment_id := None\<rparr> else c)
          (filter (\<lambda>c. comment_id c \<noteq> cid) (task_comments_table db))"
    by (simp add: d sql_delete_comment_def delete_comments_where_id [OF ex])
  show "\<forall>c\<in>set (task_comments_table db). comment_id c \<noteq> cid \<and> parent_comment_id c = Some cid
            \<longrightarrow> c\<lparr>parent_comment_id := None\<rparr> \<in> set (task_comments_table db')"
    unfolding eq by (auto simp: image_iff)
  show "\<forall>c\<in>set (task_comments_table db). comment_id c \<noteq> cid \<and> parent_comment_id c \<noteq> Some cid
            \<longrightarrow> c \<in> set (task_comments_table db')"
    unfolding eq by (auto simp: image_iff)
  show "\<forall>c\<in>set (task_comments_table db'). parent_comment_id c \<noteq> Some cid"
    unfolding eq ball_set_map by simp
next
  assume "(\<exists>c\<in>set (task_comments_table db). comment_id c = cid \<and> author_user_id c = actor)
        \<and> distinct (map comment_id (task_comments_table db))"
  then obtain c where c: "c \<in> set (task_comments_table db)" "comment_id c = cid" "author_user_id c = actor"
    and dist: "distinct (map comment_id (task_comments_table db))"
    by blast
  have "find (\<lambda>y. comment_id y = comment_id c) (task_comments_table db) = Some c"
    using c(1) dist by (rule find_unique_key)
  with c(2,3) show "\<exists>d. comment_Delete cid actor db = Inr d"
    by (simp add: comment_Delete_def)
qed

theorem comment_Delete_orphans_replies_witness:
  "(\<exists>c\<in>set (task_comments_table seed_db). comment_id c = 201 \<and> author_user_id c = 2)
   \<and> distinct (map comment_id (task_comments_table seed_db))
   \<and> comment_Delete 201 2 seed_db = Inr (sql_delete_comment 201 seed_db)
   \<and> map comment_id (task_comments_table seed_db) = [201, 202, 203]
   \<and> map parent_comment_id (task_comments_table seed_db) = [None, Some 201, None]
   \<and> map comment_id (task_comments_table (sql_delete_comment 201 seed_db)) = [202, 203]
   \<and> map parent_comment_id (task_comments_table (sql_delete_comment 201 seed_db)) = [None, None]
   \<and> map body (task_comments_table (sql_delete_comment 201 seed_db))
       = map body (tl (task_comments_table seed_db))"
proof -
  have a: "\<exists>c\<in>set (task_comments_table seed_db). comment_id c = 201 \<and> author_user_id c = 2"
    by (simp add: seed_db_def)
  have b: "distinct (map comment_id (task_comments_table seed_db))"
    by (simp add: seed_db_def)
  have i: "map comment_id (task_comments_table seed_db) = [201, 202, 203]"
    "map parent_comment_id (task_comments_table seed_db) = [None, Some 201, None]"
    by (simp_all add: seed_db_def)
  have d: "comment_Delete 201 2 seed_db = Inr (sql_delete_comment 201 seed_db)"
    by (simp add: comment_Delete_def seed_db_def)
  from comment_Delete_orphans_replies [of 201 2 seed_db "sql_delete_comment 201 seed_db"] d
  have e: "task_comments_table (sql_delete_comment 201 seed_db) =
        map (\<lambda>c. if parent_comment_id c = Some 201 then c\<lparr>parent_comment_id := None\<rparr> else c)
          (filter (\<lambda>c. comment_id c \<noteq> 201) (task_comments_table seed_db))"
    by blast
  have "map comment_id (task_comments_table (sql_delete_comment 201 seed_db)) = [202, 203]"
    "map parent_comment_id (task_comments_table (sql_delete_comment 201 seed_db)) = [None, None]"
    "map body (task_comments_table (sql_delete_comment 201 seed_db))
       = map body (tl (task_comments_table seed_db))"
    unfolding e by (simp_all add: seed_db_def)
  with a b d i show ?thesis
    by blast
qed

section \<open>Properties of task creation\<close>

lemma create_assignees_ignores_status:
  "create_assignees (req\<lparr>new_status := s\<rparr>) = create_assignees req"
  by (simp add: create_assignees_def)

lemma create_values_ignores_status:
  "create_values creator (req\<lparr>new_status := s\<rparr>) t stamp new_id
   = create_values creator req t stamp new_id"
  by (simp add: create_values_def)

lemma task_Create_ignores_status:
  "task_Create creator (req\<lparr>new_status := s\<rparr>) stamp new_id db
   = task_Create creator req stamp new_id db"
  unfolding task_Create_def create_assignees_ignores_status create_values_ignores_status
  by simp

lemma insert_assignees_tasks:
  "insert_assignees tid us stamp db = Some db' \<Longrightarrow> tasks_table db' = tasks_table db"
proof (induction us arbitrary: db)
  case Nil
  then show ?case by simp
next
  case (Cons u us)
  then show ?case
    by (auto simp: sql_insert_assignee_def split: option.splits if_splits)
qed

lemma sql_insert_task_status:
  "sql_insert_task v db = Some (row, db') \<Longrightarrow> v_status v = None \<Longrightarrow>
   status row = ''To Do'' \<and> tasks_table db' = tasks_table db @ [row] \<and> task_id row = v_task_id v
   \<and> (\<forall>t\<in>set (tasks_table db). task_id t \<noteq> v_task_id v)"
  by (auto simp: sql_insert_task_def Let_def split: if_splits)

text \<open>
  C1.  Whatever status a creation request carries, the result of the creation is the
  same as without it; when the creation succeeds the task it returns has status
  \<open>To Do\<close>, that task is the last row of the table of tasks, and every row with the new
  id has status \<open>To Do\<close>.
\<close>

theorem task_Create_status:
  "task_Create creator (req\<lparr>new_status := s\<rparr>) stamp new_id db
     = task_Create creator req stamp new_id db
   \<and> (task_Create creator req stamp new_id db = Inr ((task, members), db') \<longrightarrow>
        status task = ''To Do''
        \<and> tasks_table db' = tasks_table db @ [task]
        \<and> (\<forall>t\<in>set (tasks_table db'). task_id t = new_id \<longrightarrow> status t = ''To Do''))"
proof (intro conjI impI)
  show "task_Create creator (req\<lparr>new_status := s\<rparr>) stamp new_id db
     = task_Create creator req stamp new_id db"
    by (rule task_Create_ignores_status)
next
  assume a: "task_Create creator req stamp new_id db = Inr ((task, members), db')"
  then obtain t db1 where "sql_insert_task (create_values creator req t stamp new_id) db = Some (task, db1)"
    and i: "insert_assignees new_id (create_assignees req) stamp db1 = Some db'"
    by (auto simp: task_Create_def split: option.splits if_splits prod.splits)
  then obtain v where v: "sql_insert_task v db = Some (task, db1)" "v_status v = None"
      "v_task_id v = new_id"
    by (auto simp: create_values_def)
  from sql_insert_task_status [OF v(1,2)] v(3)
  have s: "status task = ''To Do''" and t1: "tasks_table db1 = tasks_table db @ [task]"
    and k: "task_id task = new_id" and f: "\<forall>t\<in>set (tasks_table db). task_id t \<noteq> new_id"
    by simp_all
  from i have t2: "tasks_table db' = tasks_table db1"
    by (rule insert_assignees_tasks)
  show "status task = ''To Do''" by (rule s)
  show "tasks_table db' = tasks_table db @ [task]" by (simp add: t1 t2)
  show "\<forall>t\<in>set (tasks_table db'). task_id t = new_id \<longrightarrow> status t = ''To Do''"
    using f s by (auto simp: t1 t2)
qed

theorem task_Create_status_witness:
  "new_status ship_release = Some ''Done''
   \<and> map_sum id (status \<circ> fst \<circ> fst)
        (task_Create 1 ship_release ''2024-07-01T00:00:00.000Z'' 106 seed_db) = Inr ''To Do''
   \<and> map_sum id (map status \<circ> tasks_table \<circ> snd)
        (task_Create 1 ship_release ''2024-07-01T00:00:00.000Z'' 106 seed_db)
       = Inr [''To Do'', ''In Progress'', ''To Do'']"
proof -
  have "\<exists>t m d. task_Create 1 ship_release ''2024-07-01T00:00:00.000Z'' 106 seed_db = Inr ((t, m), d)"
    by (simp add: task_Create_def create_values_def create_assignees_def ship_release_def
        seed_db_def seed_users_def sql_insert_task_def sql_insert_assignee_def trim_def
        js_whitespace_def Let_def)
  then obtain t m d
    where r: "task_Create 1 ship_release ''2024-07-01T00:00:00.000Z'' 106 seed_db = Inr ((t, m), d)"
    by blast
  from task_Create_status [where creator = 1 and req = ship_release and new_id = 106
      and stamp = "''2024-07-01T00:00:00.000Z''" and db = seed_db and task = t and members = m
      and db' = d] r
  have "status t = ''To Do''" and "tasks_table d = tasks_table seed_db @ [t]"
    by simp_all
  moreover have "map status (tasks_table seed_db) = [''To Do'', ''In Progress'']"
    by (simp add: seed_db_def)
  moreover have "new_status ship_release = Some ''Done''"
    by (simp add: ship_release_def)
  ultimately show ?thesis
    by (simp add: r)
qed

section \<open>Properties of assignment\<close>

lemma sql_insert_assignee_Some:
  "sql_insert_assignee row db = Some db' \<Longrightarrow>
   db' = db\<lparr>task_assignees_table := task_assignees_table db @ [row]\<rparr>
   \<and> assignment_key row \<notin> assignment_key ` set (task_assignees_table db)"
  by (auto simp: sql_insert_assignee_def assignment_key_def split: if_splits)

lemma insert_assignees_distinct:
  "insert_assignees tid us stamp db = Some db' \<Longrightarrow>
   distinct (map assignment_key (task_assignees_table db)) \<Longrightarrow>
   distinct (map assignment_key (task_assignees_table db'))"
proof (induction us arbitrary: db)
  case Nil
  then show ?case by simp
next
  case (Cons u us)
  from Cons.prems(1) obtain db1
    where 1: "sql_insert_assignee \<lparr>ta_task_id = tid, ta_user_id = u, assigned_at = stamp\<rparr> db = Some db1"
      and 2: "insert_assignees tid us stamp db1 = Some db'"
    by (auto split: option.splits)
  from sql_insert_assignee_Some [OF 1] Cons.prems(2)
  have "distinct (map assignment_key (task_assignees_table db1))"
    by auto
  with 2 show ?case
    by (rule Cons.IH)
qed

lemma insert_assignees_Some:
  assumes "\<exists>t\<in>set (tasks_table db). task_id t = tid"
    and "\<forall>u\<in>set us. \<exists>r\<in>set (users_table db). user_id r = u"
    and "distinct us"
    and "\<forall>u\<in>set us. \<forall>a\<in>set (task_assignees_table db). \<not> (ta_task_id a = tid \<and> ta_user_id a = u)"
  shows "insert_assignees tid us stamp db =
     Some (db\<lparr>task_assignees_table := task_assignees_table db
             @ map (\<lambda>u. \<lparr>ta_task_id = tid, ta_user_id = u, assigned_at = stamp\<rparr>) us\<rparr>)"
  using assms
proof (induction us arbitrary: db)
  case Nil
  then show ?case by simp
next
  case (Cons u us)
  let ?row = "\<lparr>ta_task_id = tid, ta_user_id = u, assigned_at = stamp\<rparr>"
  let ?db1 = "db\<lparr>task_assignees_table := task_assignees_table db @ [?row]\<rparr>"
  from Cons.prems have 1: "sql_insert_assignee ?row db = Some ?db1"
    by (auto simp: sql_insert_assignee_def)
  have "insert_assignees tid us stamp ?db1 =
     Some (?db1\<lparr>task_assignees_table := task_assignees_table ?db1
             @ map (\<lambda>u. \<lparr>ta_task_id = tid, ta_user_id = u, assigned_at = stamp\<rparr>) us\<rparr>)"
  proof (rule Cons.IH)
    show "\<exists>t\<in>set (tasks_table ?db1). task_id t = tid"
      using Cons.prems(1) by simp
    show "\<forall>u\<in>set us. \<exists>r\<in>set (users_table ?db1). user_id r = u"
      using Cons.prems(2) by simp
    show "distinct us"
      using Cons.prems(3) by simp
    show "\<forall>u\<in>set us. \<forall>a\<in>set (task_assignees_table ?db1). \<not> (ta_task_id a = tid \<and> ta_user_id a = u)"
      using Cons.prems(3,4) by auto
  qed
  with 1 show ?case
    by simp
qed

lemma insert_assignees_table:
  "insert_assignees tid us stamp db = Some db' \<Longrightarrow>
   task_assignees_table db' = task_assignees_table db
     @ map (\<lambda>u. \<lparr>ta_task_id = tid, ta_user_id = u, assigned_at = stamp\<rparr>) us
   \<and> users_table db' = users_table db \<and> tasks_table db' = tasks_table db"
proof (induction us arbitrary: db)
  case Nil
  then show ?case by simp
next
  case (Cons u us)
  from Cons.prems obtain db1
    where 1: "sql_insert_assignee \<lparr>ta_task_id = tid, ta_user_id = u, assigned_at = stamp\<rparr> db = Some db1"
      and 2: "insert_assignees tid us stamp db1 = Some db'"
    by (auto split: option.splits)
  from sql_insert_assignee_Some [OF 1] Cons.IH [OF 2] show ?case
    by simp
qed

lemma replace_assignees_distinct:
  assumes "replace_assignees tid members stamp db = Some db'"
    and "distinct (map assignment_key (task_assignees_table db))"
  shows "distinct (map assignment_key (task_assignees_table db'))"
proof -
  let ?db1 = "db\<lparr>task_assignees_table :=
                    filter (\<lambda>a. ta_task_id a \<noteq> tid \<or> ta_user_id a \<in> set (remdups members))
                      (task_assignees_table db)\<rparr>"
  from assms(2) have "distinct (map assignment_key (task_assignees_table ?db1))"
    by (simp add: distinct_map_filter)
  with assms(1) show ?thesis
    unfolding replace_assignees_def Let_def
    by (rule insert_assignees_distinct)
qed

lemma filter_eq_singleton:
  "distinct us \<Longrightarrow> u \<in> set us \<Longrightarrow> filter (\<lambda>x. x = u) us = [u]"
  by (induction us) (auto simp: filter_empty_conv)

lemma replace_assignees_rows:
  assumes r: "replace_assignees tid members stamp db = Some db'" and u: "u \<in> set members"
  shows "assignment_rows tid u db' =
     (if assignment_rows tid u db = []
      then [\<lparr>ta_task_id = tid, ta_user_id = u, assigned_at = stamp\<rparr>]
      else assignment_rows tid u db)"
proof -
  let ?T = "task_assignees_table db"
  let ?current = "map ta_user_id (filter (\<lambda>a. ta_task_id a = tid) ?T)"
  let ?added = "filter (\<lambda>u. u \<notin> set ?current) (remdups members)"
  from r have T': "task_assignees_table db' =
      filter (\<lambda>a. ta_task_id a \<noteq> tid \<or> ta_user_id a \<in> set (remdups members)) ?T
      @ map (\<lambda>u. \<lparr>ta_task_id = tid, ta_user_id = u, assigned_at = stamp\<rparr>) ?added"
    unfolding replace_assignees_def Let_def
    by (auto dest: insert_assignees_table)
  have kept: "filter (\<lambda>a. ta_task_id a = tid \<and> ta_user_id a = u)
        (filter (\<lambda>a. ta_task_id a \<noteq> tid \<or> ta_user_id a \<in> set (remdups members)) ?T)
      = assignment_rows tid u db"
    using u by (auto simp: assignment_rows_def intro: filter_cong)
  have new: "filter (\<lambda>a. ta_task_id a = tid \<and> ta_user_id a = u)
        (map (\<lambda>u. \<lparr>ta_task_id = tid, ta_user_id = u, assigned_at = stamp\<rparr>) ?added)
      = map (\<lambda>u. \<lparr>ta_task_id = tid, ta_user_id = u, assigned_at = stamp\<rparr>)
          (filter (\<lambda>x. x = u) ?added)"
    by (simp add: filter_map comp_def)
  have cur: "u \<in> set ?current \<longleftrightarrow> assignment_rows tid u db \<noteq> []"
    by (auto simp: assignment_rows_def filter_empty_conv)
  have "assignment_rows tid u db' =
      filter (\<lambda>a. ta_task_id a = tid \<and> ta_user_id a = u)
        (filter (\<lambda>a. ta_task_id a \<noteq> tid \<or> ta_user_id a \<in> set (remdups members)) ?T)
      @ filter (\<lambda>a. ta_task_id a = tid \<and> ta_user_id a = u)
        (map (\<lambda>u. \<lparr>ta_task_id = tid, ta_user_id = u, assigned_at = stamp\<rparr>) ?added)"
    by (simp only: assignment_rows_def [of tid u db'] T' filter_append)
  then have rows: "assignment_rows tid u db' = assignment_rows tid u db
      @ map (\<lambda>u. \<lparr>ta_task_id = tid, ta_user_id = u, assigned_at = stamp\<rparr>)
          (filter (\<lambda>x. x = u) ?added)"
    by (simp only: kept new)
  show ?thesis
  proof (cases "assignment_rows tid u db = []")
    case True
    with cur u have "u \<in> set ?added" and "distinct ?added"
      by simp_all
    then have "filter (\<lambda>x. x = u) ?added = [u]"
      by (simp only: filter_eq_singleton)
    with True rows have "assignment_rows tid u db' =
        [] @ map (\<lambda>u. \<lparr>ta_task_id = tid, ta_user_id = u, assigned_at = stamp\<rparr>) [u]"
      by (simp only:)
    with True show ?thesis
      by simp
  next
    case False
    with cur have "filter (\<lambda>x. x = u) ?added = []"
      by (auto simp: filter_empty_conv)
    with rows have "assignment_rows tid u db' = assignment_rows tid u db
        @ map (\<lambda>u. \<lparr>ta_task_id = tid, ta_user_id = u, assigned_at = stamp\<rparr>) []"
      by (simp only:)
    with False show ?thesis
      by simp
  qed
qed

lemma assignment_rows_single:
  assumes "distinct (map assignment_key (task_assignees_table db))"
    and "assignment_rows tid u db \<noteq> []"
  shows "length (assignment_rows tid u db) = 1"
proof -
  have "distinct (map assignment_key (assignment_rows tid u db))"
    using assms(1) by (simp add: assignment_rows_def distinct_map_filter)
  moreover have "\<forall>a\<in>set (assignment_rows tid u db). assignment_key a = (tid, u)"
    by (simp add: assignment_rows_def assignment_key_def)
  ultimately have "length (assignment_rows tid u db) \<le> 1"
  proof (cases "assignment_rows tid u db")
    case Nil
    then show ?thesis by simp
  next
    case (Cons a as)
    assume d: "distinct (map assignment_key (assignment_rows tid u db))"
      and k: "\<forall>a\<in>set (assignment_rows tid u db). assignment_key a = (tid, u)"
    have "as = []"
    proof (cases as)
      case Nil
      then show ?thesis .
    next
      case (Cons b bs)
      with \<open>assignment_rows tid u db = a # as\<close> d k show ?thesis
        by auto
    qed
    with Cons show ?thesis by simp
  qed
  with assms(2) show ?thesis
    by (cases "assignment_rows tid u db") auto
qed

lemma store_row_tables:
  "task_assignees_table (store_row row db) = task_assignees_table db"
  "users_table (store_row row db) = users_table db"
  "map task_id (tasks_table (store_row row db)) = map task_id (tasks_table db)"
  by (simp_all add: store_row_def comp_def)

lemma task_id_updated_row: "task_id (updated_row old req stamp) = task_id old"
  by (simp add: updated_row_def)

lemma task_Update_Inr:
  assumes "task_Update tid actor req stamp db = Inr (row, db')"
  shows "\<exists>d. task_assignees_table d = task_assignees_table db
     \<and> (case upd_assignees req of
           None \<Rightarrow> db' = d
         | Some members \<Rightarrow> replace_assignees tid members stamp d = Some db')"
proof -
  from assms obtain old where "find (\<lambda>t. task_id t = tid) (tasks_table db) = Some old"
    by (auto simp: task_Update_def split: option.splits)
  with assms have "case upd_assignees req of
           None \<Rightarrow> db' = store_row (updated_row old req stamp) db
         | Some members \<Rightarrow>
             replace_assignees tid members stamp (store_row (updated_row old req stamp) db) = Some db'"
    by (auto simp: task_Update_def split: option.splits if_splits)
  then show ?thesis
    using store_row_tables(1) by blast
qed

lemma task_Update_assign_ok:
  assumes ex: "\<exists>t\<in>set (tasks_table db). task_id t = tid"
    and ti: "title_acceptable req"
    and m: "upd_assignees req = Some members"
    and us: "\<forall>m\<in>set members. \<exists>r\<in>set (users_table db). user_id r = m"
  shows "\<exists>row db'. task_Update tid actor req stamp db = Inr (row, db')
     \<and> (\<exists>t\<in>set (tasks_table db'). task_id t = tid)
     \<and> users_table db' = users_table db"
proof -
  from ex obtain old where f: "find (\<lambda>t. task_id t = tid) (tasks_table db) = Some old"
    by (cases "find (\<lambda>t. task_id t = tid) (tasks_table db)") (auto simp: find_None_iff)
  then have old: "task_id old = tid"
    by (auto simp: find_Some_iff)
  let ?row = "updated_row old req stamp"
  let ?d = "store_row ?row db"
  let ?keep = "?d\<lparr>task_assignees_table :=
                    filter (\<lambda>a. ta_task_id a \<noteq> tid \<or> ta_user_id a \<in> set (remdups members))
                      (task_assignees_table ?d)\<rparr>"
  let ?added = "filter (\<lambda>u. u \<notin> set (map ta_user_id
                  (filter (\<lambda>a. ta_task_id a = tid) (task_assignees_table ?d)))) (remdups members)"
  from ex have "tid \<in> set (map task_id (tasks_table db))"
    by auto
  then have "tid \<in> set (map task_id (tasks_table ?d))"
    by (simp only: store_row_tables(3))
  then have ex': "\<exists>t\<in>set (tasks_table ?keep). task_id t = tid"
    by auto
  have "insert_assignees tid ?added stamp ?keep =
     Some (?keep\<lparr>task_assignees_table := task_assignees_table ?keep
             @ map (\<lambda>u. \<lparr>ta_task_id = tid, ta_user_id = u, assigned_at = stamp\<rparr>) ?added\<rparr>)"
  proof (rule insert_assignees_Some)
    show "\<exists>t\<in>set (tasks_table ?keep). task_id t = tid"
      by (rule ex')
    show "\<forall>u\<in>set ?added. \<exists>r\<in>set (users_table ?keep). user_id r = u"
      using us by (simp add: store_row_tables(2))
    show "distinct ?added"
      by simp
    show "\<forall>u\<in>set ?added. \<forall>a\<in>set (task_assignees_table ?keep).
        \<not> (ta_task_id a = tid \<and> ta_user_id a = u)"
      by auto
  qed
  then obtain db' where r: "replace_assignees tid members stamp ?d = Some db'"
    and t: "tasks_table db' = tasks_table ?keep" and u: "users_table db' = users_table ?keep"
    unfolding replace_assignees_def Let_def by simp
  from ti f m r have "task_Update tid actor req stamp db = Inr (?row, db')"
    by (auto simp: task_Update_def title_acceptable_def split: option.splits)
  moreover from ex' t have "\<exists>t\<in>set (tasks_table db'). task_id t = tid"
    by simp
  moreover from u have "users_table db' = users_table db"
    by (simp add: store_row_tables(2))
  ultimately show ?thesis
    by blast
qed

text \<open>
  C2.  A successful update keeps the table of assignments free of two rows with the
  same task and user.  When a task exists and the users named exist, an update that
  assigns a user succeeds and leaves exactly one assignment of that user to the task;
  a second update that names the user again succeeds as well and leaves that same
  row, with its \<open>assigned_at\<close>, as the only one.
\<close>

theorem assignment_unique_idempotent:
  "(distinct (map assignment_key (task_assignees_table db))
      \<and> task_Update tid actor req stamp db = Inr (row, db')
     \<longrightarrow> distinct (map assignment_key (task_assignees_table db')))
   \<and> (distinct (map assignment_key (task_assignees_table db))
      \<and> (\<exists>t\<in>set (tasks_table db). task_id t = tid)
      \<and> title_acceptable first_req \<and> upd_assignees first_req = Some first_members
      \<and> title_acceptable second_req \<and> upd_assignees second_req = Some second_members
      \<and> (\<forall>m\<in>set first_members \<union> set second_members.
            \<exists>r\<in>set (users_table db). user_id r = m)
      \<and> uid \<in> set first_members \<and> uid \<in> set second_members
     \<longrightarrow> (\<exists>first_row first_db second_row second_db.
            task_Update tid first_actor first_req first_stamp db = Inr (first_row, first_db)
          \<and> task_Update tid second_actor second_req second_stamp first_db
              = Inr (second_row, second_db)
          \<and> length (assignment_rows tid uid first_db) = 1
          \<and> assignment_rows tid uid second_db = assignment_rows tid uid first_db))"
proof (intro conjI impI)
  assume a: "distinct (map assignment_key (task_assignees_table db))
      \<and> task_Update tid actor req stamp db = Inr (row, db')"
  then obtain d where d: "task_assignees_table d = task_assignees_table db"
    and c: "case upd_assignees req of None \<Rightarrow> db' = d
         | Some members \<Rightarrow> replace_assignees tid members stamp d = Some db'"
    using task_Update_Inr by blast
  show "distinct (map assignment_key (task_assignees_table db'))"
  proof (cases "upd_assignees req")
    case None
    with a c d show ?thesis by simp
  next
    case (Some members)
    with c have "replace_assignees tid members stamp d = Some db'"
      by simp
    moreover from a d have "distinct (map assignment_key (task_assignees_table d))"
      by simp
    ultimately show ?thesis
      by (rule replace_assignees_distinct)
  qed
next
  assume h: "distinct (map assignment_key (task_assignees_table db))
      \<and> (\<exists>t\<in>set (tasks_table db). task_id t = tid)
      \<and> title_acceptable first_req \<and> upd_assignees first_req = Some first_members
      \<and> title_acceptable second_req \<and> upd_assignees second_req = Some second_members
      \<and> (\<forall>m\<in>set first_members \<union> set second_members.
            \<exists>r\<in>set (users_table db). user_id r = m)
      \<and> uid \<in> set first_members \<and> uid \<in> set second_members"
  then have dist: "distinct (map assignment_key (task_assignees_table db))"
    and ex: "\<exists>t\<in>set (tasks_table db). task_id t = tid"
    and t1: "title_acceptable first_req" and m1: "upd_assignees first_req = Some first_members"
    and t2: "title_acceptable second_req" and m2: "upd_assignees second_req = Some second_members"
    and u1: "\<forall>m\<in>set first_members. \<exists>r\<in>set (users_table db). user_id r = m"
    and u2: "\<forall>m\<in>set second_members. \<exists>r\<in>set (users_table db). user_id r = m"
    and i1: "uid \<in> set first_members" and i2: "uid \<in> set second_members"
    by auto
  from task_Update_assign_ok [OF ex t1 m1 u1] obtain first_row first_db
    where r1: "task_Update tid first_actor first_req first_stamp db = Inr (first_row, first_db)"
      and ex1: "\<exists>t\<in>set (tasks_table first_db). task_id t = tid"
      and us1: "users_table first_db = users_table db"
    by blast
  from u2 us1 have u2': "\<forall>m\<in>set second_members. \<exists>r\<in>set (users_table first_db). user_id r = m"
    by simp
  from task_Update_assign_ok [OF ex1 t2 m2 u2'] obtain second_row second_db
    where r2: "task_Update tid second_actor second_req second_stamp first_db
        = Inr (second_row, second_db)"
    by blast
  from task_Update_Inr [OF r1] m1 obtain d1
    where d1: "task_assignees_table d1 = task_assignees_table db"
      and p1: "replace_assignees tid first_members first_stamp d1 = Some first_db"
    by auto
  from task_Update_Inr [OF r2] m2 obtain d2
    where d2: "task_assignees_table d2 = task_assignees_table first_db"
      and p2: "replace_assignees tid second_members second_stamp d2 = Some second_db"
    by auto
  from replace_assignees_rows [OF p1 i1] have ne1: "assignment_rows tid uid first_db \<noteq> []"
    by (simp split: if_splits)
  from dist d1 have "distinct (map assignment_key (task_assignees_table d1))"
    by simp
  with p1 have "distinct (map assignment_key (task_assignees_table first_db))"
    by (rule replace_assignees_distinct)
  then have one: "length (assignment_rows tid uid first_db) = 1"
    using ne1 by (rule assignment_rows_single)
  from d2 have "assignment_rows tid uid d2 = assignment_rows tid uid first_db"
    by (simp add: assignment_rows_def)
  with replace_assignees_rows [OF p2 i2] ne1
  have same: "assignment_rows tid uid second_db = assignment_rows tid uid first_db"
    by simp
  from r1 r2 one same
  show "\<exists>first_row first_db second_row second_db.
            task_Update tid first_actor first_req first_stamp db = Inr (first_row, first_db)
          \<and> task_Update tid second_actor second_req second_stamp first_db
              = Inr (second_row, second_db)
          \<and> length (assignment_rows tid uid first_db) = 1
          \<and> assignment_rows tid uid second_db = assignment_rows tid uid first_db"
    by blast
qed

theorem assignment_unique_idempotent_witness:
  "distinct (map assignment_key (task_assignees_table seed_db))
   \<and> assignment_rows 102 3 seed_db = []
   \<and> map_sum id (assignment_rows 102 3 \<circ> snd)
         (task_Update 102 1 (assign_to [2, 3]) ''2024-07-01T10:00:00.000Z'' seed_db)
       = Inr [\<lparr>ta_task_id = 102, ta_user_id = 3, assigned_at = ''2024-07-01T10:00:00.000Z''\<rparr>]
   \<and> (case task_Update 102 1 (assign_to [2, 3]) ''2024-07-01T10:00:00.000Z'' seed_db of
         Inl e \<Rightarrow> Inl e
       | Inr (r, d) \<Rightarrow>
           map_sum id (assignment_rows 102 3 \<circ> snd)
             (task_Update 102 2 (assign_to [3, 3]) ''2024-07-02T10:00:00.000Z'' d))
       = Inr [\<lparr>ta_task_id = 102, ta_user_id = 3, assigned_at = ''2024-07-01T10:00:00.000Z''\<rparr>]"
proof -
  have h1: "distinct (map assignment_key (task_assignees_table seed_db))"
    by (simp add: seed_db_def assignment_key_def)
  have h2: "\<exists>t\<in>set (tasks_table seed_db). task_id t = 102"
    by (simp add: seed_db_def)
  have h3: "title_acceptable (assign_to [2, 3])" "upd_assignees (assign_to [2, 3]) = Some [2, 3]"
    "title_acceptable (assign_to [3, 3])" "upd_assignees (assign_to [3, 3]) = Some [3, 3]"
    by (simp_all add: assign_to_def title_acceptable_def)
  have h4: "\<forall>m\<in>set [2, 3] \<union> set [3, 3]. \<exists>r\<in>set (users_table seed_db). user_id r = m"
    by (simp add: seed_db_def seed_users_def)
  have h5: "(3::int) \<in> set [2, 3]" "(3::int) \<in> set [3, 3]"
    by simp_all
  have e0: "assignment_rows 102 3 seed_db = []"
    by (simp add: assignment_rows_def seed_db_def)
  from assignment_unique_idempotent [where db = seed_db and tid = 102 and uid = 3
      and first_req = "assign_to [2, 3]" and first_members = "[2, 3]"
      and second_req = "assign_to [3, 3]" and second_members = "[3, 3]"
      and first_actor = 1 and second_actor = 2
      and first_stamp = "''2024-07-01T10:00:00.000Z''"
      and second_stamp = "''2024-07-02T10:00:00.000Z''"] h1 h2 h3 h4 h5
  obtain first_row first_db second_row second_db
    where r1: "task_Update 102 1 (assign_to [2, 3]) ''2024-07-01T10:00:00.000Z'' seed_db
        = Inr (first_row, first_db)"
      and r2: "task_Update 102 2 (assign_to [3, 3]) ''2024-07-02T10:00:00.000Z'' first_db
        = Inr (second_row, second_db)"
      and one: "length (assignment_rows 102 3 first_db) = 1"
      and same: "assignment_rows 102 3 second_db = assignment_rows 102 3 first_db"
    by blast
  from task_Update_Inr [OF r1] h3(2) obtain d1
    where d1: "task_assignees_table d1 = task_assignees_table seed_db"
      and p1: "replace_assignees 102 [2, 3] ''2024-07-01T10:00:00.000Z'' d1 = Some first_db"
    by auto
  from d1 e0 have "assignment_rows 102 3 d1 = []"
    by (simp add: assignment_rows_def)
  with replace_assignees_rows [OF p1 h5(1)]
  have f: "assignment_rows 102 3 first_db
      = [\<lparr>ta_task_id = 102, ta_user_id = 3, assigned_at = ''2024-07-01T10:00:00.000Z''\<rparr>]"
    by simp
  from h1 e0 r1 r2 same f show ?thesis
    by simp
qed

section \<open>Properties of pagination\<close>

lemma pages_cover:
  assumes "0 < ps"
  shows "n \<le> (n + ps - 1) div ps * (ps::nat)"
proof -
  let ?m = "n + ps - 1"
  have "?m mod ps < ps"
    using assms by simp
  moreover have "?m = ?m div ps * ps + ?m mod ps"
    by simp
  ultimately have "?m < ?m div ps * ps + ps"
    by linarith
  with assms show ?thesis
    by linarith
qed

lemma pages_tight:
  assumes "0 < ps"
  shows "(n + ps - 1) div ps * (ps::nat) < n + ps"
proof -
  have "(n + ps - 1) div ps * ps \<le> n + ps - 1"
    by simp
  with assms show ?thesis
    by linarith
qed

lemma pages_ceiling:
  assumes "0 < ps"
  shows "int ((n + ps - 1) div ps) = \<lceil>real n / real ps\<rceil>"
proof -
  let ?k = "(n + ps - 1) div ps"
  from assms have p: "0 < real ps"
    by simp
  have "real n \<le> real (?k * ps)"
    using pages_cover [OF assms, of n] by (simp only: of_nat_le_iff)
  then have a: "real n \<le> real ?k * real ps"
    by simp
  have "real (?k * ps) < real (n + ps)"
    using pages_tight [OF assms, of n] by (simp only: of_nat_less_iff)
  then have b: "real ?k * real ps < real n + real ps"
    by simp
  from a p have 1: "real n / real ps \<le> real ?k"
    by (simp add: divide_le_eq)
  from b p have 2: "real ?k - 1 < real n / real ps"
    by (simp add: less_divide_eq algebra_simps)
  from 1 2 have "\<lceil>real n / real ps\<rceil> = int ?k"
    by (intro ceiling_unique) simp_all
  then show ?thesis
    by simp
qed

lemma concat_pages:
  "concat (map (\<lambda>p. take ps (drop ((p - 1) * ps) xs)) [1..<Suc k]) = take (k * ps) xs"
proof (induction k)
  case 0
  then show ?case by simp
next
  case (Suc k)
  have "concat (map (\<lambda>p. take ps (drop ((p - 1) * ps) xs)) [1..<Suc (Suc k)])
      = take (k * ps) xs @ take ps (drop (k * ps) xs)"
    using Suc by simp
  also have "\<dots> = take (k * ps + ps) xs"
    by (simp add: take_add)
  finally show ?case
    by (simp add: add.commute)
qed

text \<open>
  C6.  For a page size of at least one, the pagination information gives the size of
  the filtered list as \<open>total_items\<close> and the ceiling of that size divided by the page
  size as \<open>total_pages\<close>; pages are numbered from one: page one holds the first items,
  and the pages one to \<open>total_pages\<close>, one after the other, are the filtered list.  With
  25 tasks and a page size of 10, page 3 has 5 items and \<open>total_pages\<close> is 3.
\<close>

theorem paginate_pages:
  "0 < psize \<longrightarrow>
     total_items (snd (paginate page psize filtered)) = length filtered
     \<and> int (total_pages (snd (paginate page psize filtered)))
         = \<lceil>real (length filtered) / real psize\<rceil>
     \<and> fst (paginate 1 psize filtered) = take psize filtered
     \<and> concat (map (\<lambda>p. fst (paginate p psize filtered))
           [1..<Suc (total_pages (snd (paginate page psize filtered)))]) = filtered
     \<and> (length filtered = 25 \<and> psize = 10 \<longrightarrow>
          length (fst (paginate 3 psize filtered)) = 5
          \<and> total_pages (snd (paginate 3 psize filtered)) = 3)"
proof (intro impI conjI)
  assume p: "0 < psize"
  show "total_items (snd (paginate page psize filtered)) = length filtered"
    by (simp add: paginate_def)
  show "int (total_pages (snd (paginate page psize filtered)))
         = \<lceil>real (length filtered) / real psize\<rceil>"
    using pages_ceiling [OF p, of "length filtered"] by (simp add: paginate_def)
  show "fst (paginate 1 psize filtered) = take psize filtered"
    by (simp add: paginate_def)
  have "concat (map (\<lambda>p. fst (paginate p psize filtered))
           [1..<Suc (total_pages (snd (paginate page psize filtered)))])
      = take ((length filtered + psize - 1) div psize * psize) filtered"
    using concat_pages [of psize filtered "(length filtered + psize - 1) div psize"]
    by (simp add: paginate_def)
  also have "\<dots> = filtered"
    using pages_cover [OF p, of "length filtered"] by simp
  finally show "concat (map (\<lambda>p. fst (paginate p psize filtered))
           [1..<Suc (total_pages (snd (paginate page psize filtered)))]) = filtered" .
next
  assume "length filtered = 25 \<and> psize = 10"
  then show "length (fst (paginate 3 psize filtered)) = 5"
    by (simp add: paginate_def)
next
  assume "length filtered = 25 \<and> psize = 10"
  then show "total_pages (snd (paginate 3 psize filtered)) = 3"
    by (simp add: paginate_def)
qed

theorem paginate_pages_witness:
  "length twenty_five_tasks = 25
   \<and> fst (paginate 3 10 twenty_five_tasks) = [121, 122, 123, 124, 125]
   \<and> length (fst (paginate 3 10 twenty_five_tasks)) = 5
   \<and> snd (paginate 3 10 twenty_five_tasks)
       = \<lparr>current_page = 3, total_pages = 3, page_size = 10, total_items = 25\<rparr>
   \<and> \<lceil>real (length twenty_five_tasks) / real (10::nat)\<rceil> = 3"
proof -
  have l: "length twenty_five_tasks = 25"
    by (simp add: twenty_five_tasks_def)
  have p: "(0::nat) < 10"
    by simp
  have f: "fst (paginate 3 10 twenty_five_tasks) = [121, 122, 123, 124, 125]"
    by (simp add: paginate_def twenty_five_tasks_def upto_rec_numeral)
  from paginate_pages [of 10 3 twenty_five_tasks] l p
  have "total_items (snd (paginate 3 10 twenty_five_tasks)) = 25"
    and "int (total_pages (snd (paginate 3 10 twenty_five_tasks)))
         = \<lceil>real (length twenty_five_tasks) / real (10::nat)\<rceil>"
    and "length (fst (paginate 3 10 twenty_five_tasks)) = 5"
    and "total_pages (snd (paginate 3 10 twenty_five_tasks)) = 3"
    by simp_all
  with l f show ?thesis
    by (simp add: paginate_def)
qed

end
